theory Spec2Isabelle
  imports Complex_Main "HOL-Library.Word"
begin

unbundle bit_operations_syntax

section \<open>Machine types\<close>

type_synonym u64 = "64 word"
type_synonym u32 = "32 word"
type_synonym byte = "8 word"

section \<open>The decimal package used by the quote functions\<close>

text \<open>
  The quote functions compute with \<^verbatim>\<open>decimal.Decimal\<close> of the package
  \<^verbatim>\<open>github.com/shopspring/decimal\<close>, an external dependency of the repository.
  A Decimal is an arbitrary-precision integer coefficient (\<^verbatim>\<open>value *big.Int\<close>) and a
  base-10 exponent (\<^verbatim>\<open>exp int32\<close>); it denotes \<open>value * 10 ^ exp\<close>.  The
  operations below follow the package's implementation.  The exponent is an unbounded
  \<open>int\<close> here: the package panics when an exponent leaves the int32 range, and the
  exponents that arise in the quote functions lie between -32 and 1.
\<close>

record Decimal =
  d_value :: int
  d_exp :: int

text \<open>\<^verbatim>\<open>big.Int.Quo\<close> and \<^verbatim>\<open>big.Int.Rem\<close>: division truncated towards zero.\<close>

definition Quo :: "int \<Rightarrow> int \<Rightarrow> int" where
  "Quo x y = sgn x * sgn y * (\<bar>x\<bar> div \<bar>y\<bar>)"

definition Rem :: "int \<Rightarrow> int \<Rightarrow> int" where
  "Rem x y = sgn x * (\<bar>x\<bar> mod \<bar>y\<bar>)"

text \<open>
  The panics of the Go runtime and of the decimal package that the modelled code can
  reach: \<^verbatim>\<open>panic("decimal division by 0")\<close> and an index out of range.
\<close>

datatype fault = DivisionByZero | IndexOutOfRange

definition New :: "int \<Rightarrow> int \<Rightarrow> Decimal" where
  "New v e = \<lparr>d_value = v, d_exp = e\<rparr>"

definition NewFromInt :: "int \<Rightarrow> Decimal" where
  "NewFromInt v = \<lparr>d_value = v, d_exp = 0\<rparr>"

definition NewFromUint64 :: "u64 \<Rightarrow> Decimal" where
  "NewFromUint64 v = \<lparr>d_value = uint v, d_exp = 0\<rparr>"

definition Zero :: Decimal where
  "Zero = New 0 1"

definition DivisionPrecision :: int where
  "DivisionPrecision = 16"

definition rescale :: "Decimal \<Rightarrow> int \<Rightarrow> Decimal" where
  "rescale d e =
     (if d_exp d = e then d
      else
        let diff = nat \<bar>e - d_exp d\<bar>;
            expScale = (10::int) ^ diff
        in if e > d_exp d then \<lparr>d_value = Quo (d_value d) expScale, d_exp = e\<rparr>
           else \<lparr>d_value = d_value d * expScale, d_exp = e\<rparr>)"

definition RescalePair :: "Decimal \<Rightarrow> Decimal \<Rightarrow> Decimal \<times> Decimal" where
  "RescalePair d1 d2 =
     (if d_exp d1 < d_exp d2 then (d1, rescale d2 (d_exp d1))
      else if d_exp d1 > d_exp d2 then (rescale d1 (d_exp d2), d2)
      else (d1, d2))"

definition Add :: "Decimal \<Rightarrow> Decimal \<Rightarrow> Decimal" where
  "Add d d2 =
     (let (rd, rd2) = RescalePair d d2
      in \<lparr>d_value = d_value rd + d_value rd2, d_exp = d_exp rd\<rparr>)"

definition Sub :: "Decimal \<Rightarrow> Decimal \<Rightarrow> Decimal" where
  "Sub d d2 =
     (let (rd, rd2) = RescalePair d d2
      in \<lparr>d_value = d_value rd - d_value rd2, d_exp = d_exp rd\<rparr>)"

definition Mul :: "Decimal \<Rightarrow> Decimal \<Rightarrow> Decimal" where
  "Mul d d2 = \<lparr>d_value = d_value d * d_value d2, d_exp = d_exp d + d_exp d2\<rparr>"

definition Abs :: "Decimal \<Rightarrow> Decimal" where
  "Abs d = \<lparr>d_value = \<bar>d_value d\<bar>, d_exp = d_exp d\<rparr>"

definition Sign :: "Decimal \<Rightarrow> int" where
  "Sign d = sgn (d_value d)"

definition Cmp :: "Decimal \<Rightarrow> Decimal \<Rightarrow> int" where
  "Cmp d d2 =
     (if d_exp d = d_exp d2 then sgn (d_value d - d_value d2)
      else
        let (rd, rd2) = RescalePair d d2
        in sgn (d_value rd - d_value rd2))"

definition IsPositive :: "Decimal \<Rightarrow> bool" where
  "IsPositive d \<longleftrightarrow> Sign d = 1"

definition LessThanOrEqual :: "Decimal \<Rightarrow> Decimal \<Rightarrow> bool" where
  "LessThanOrEqual d d2 = (let cmp = Cmp d d2 in cmp = -1 \<or> cmp = 0)"

text \<open>
  \<^verbatim>\<open>QuoRem\<close>: quotient truncated to \<open>precision\<close> decimal places, and the remainder.
  It panics with "decimal division by 0" when the divisor's coefficient is zero.
\<close>

definition QuoRem :: "Decimal \<Rightarrow> Decimal \<Rightarrow> int \<Rightarrow> fault + (Decimal \<times> Decimal)" where
  "QuoRem d d2 precision =
     (if sgn (d_value d2) = 0 then Inl DivisionByZero
      else
        let scale = - precision;
            e = d_exp d - d_exp d2 - scale;
            (aa, bb, scalerest) =
               (if e < 0 then (d_value d, d_value d2 * 10 ^ nat (- e), d_exp d)
                else (d_value d * 10 ^ nat e, d_value d2, scale + d_exp d2));
            q = Quo aa bb;
            r = Rem aa bb
        in Inr (\<lparr>d_value = q, d_exp = scale\<rparr>, \<lparr>d_value = r, d_exp = scalerest\<rparr>))"

text \<open>
  \<^verbatim>\<open>DivRound\<close>: the quotient rounded to \<open>precision\<close> decimal places, a remainder of
  half a unit or more rounding away from zero.
\<close>

definition DivRound :: "Decimal \<Rightarrow> Decimal \<Rightarrow> int \<Rightarrow> fault + Decimal" where
  "DivRound d d2 precision =
     (case QuoRem d d2 precision of
        Inl f \<Rightarrow> Inl f
      | Inr (q, r) \<Rightarrow>
          let rv2 = \<bar>d_value r\<bar> * 2;
              r2 = \<lparr>d_value = rv2, d_exp = d_exp r + precision\<rparr>;
              c = Cmp r2 (Abs d2)
          in if c < 0 then Inr q
             else if sgn (d_value d) * sgn (d_value d2) < 0
               then Inr (Sub q (New 1 (- precision)))
             else Inr (Add q (New 1 (- precision))))"

definition Div :: "Decimal \<Rightarrow> Decimal \<Rightarrow> fault + Decimal" where
  "Div d d2 = DivRound d d2 DivisionPrecision"

text \<open>
  \<^verbatim>\<open>IntPart\<close> rescales to exponent 0 (truncating towards zero) and returns
  \<^verbatim>\<open>big.Int.Int64()\<close> of the coefficient, which keeps the low 64 bits in two's
  complement.  The callers convert the int64 with \<^verbatim>\<open>uint64(...)\<close>, which keeps the
  bit pattern, so the 64-bit word stands for both.
\<close>

definition IntPart :: "Decimal \<Rightarrow> u64" where
  "IntPart d = word_of_int (d_value (rescale d 0))"

section \<open>The quote functions\<close>

definition FeeRateDenominatorValue :: Decimal where
  "FeeRateDenominatorValue = NewFromUint64 1000000"

definition AllBpDecimal :: Decimal where
  "AllBpDecimal = NewFromInt 10000"

text \<open>
  A Go result \<^verbatim>\<open>(uint64, uint64, error)\<close> is a triple whose last component is
  \<open>None\<close> for a nil error and the message otherwise; a panic is \<open>Inl\<close>.
\<close>

type_synonym quote = "u64 \<times> u64 \<times> string option"

definition CalcMinAmountOutBySwap ::
  "u32 \<Rightarrow> u64 \<Rightarrow> u64 \<Rightarrow> u64 \<Rightarrow> u64 \<Rightarrow> fault + quote" where
  "CalcMinAmountOutBySwap slipPageBP amountIn totalInTokenAmount totalOutTokenAmount feeRate =
     (let amountDecimal = NewFromUint64 amountIn in
      case Div (NewFromUint64 feeRate) FeeRateDenominatorValue of
        Inl f \<Rightarrow> Inl f
      | Inr feeRateDecimal \<Rightarrow>
         (let feeDecimal = Mul amountDecimal feeRateDecimal;
              amountDecimal = Sub amountDecimal feeDecimal;
              totalInTokenAmountDecimal = NewFromUint64 totalInTokenAmount;
              totalOutTokenAmountDecimal = NewFromUint64 totalOutTokenAmount;
              productDecimal = Mul totalInTokenAmountDecimal totalOutTokenAmountDecimal in
          case Div productDecimal (Add totalInTokenAmountDecimal amountDecimal) of
            Inl f \<Rightarrow> Inl f
          | Inr divided \<Rightarrow>
             (let outDecimal = Sub totalOutTokenAmountDecimal divided in
              case Div (Sub AllBpDecimal (NewFromUint64 (ucast slipPageBP))) AllBpDecimal of
                Inl f \<Rightarrow> Inl f
              | Inr ratio \<Rightarrow>
                 (let minOut = Mul outDecimal ratio in
                  if \<not> IsPositive minOut \<or> \<not> IsPositive outDecimal then Inr (0, 0, None)
                  else Inr (IntPart minOut, IntPart outDecimal, None)))))"

definition CalcMinAmountOutByAmm ::
  "u32 \<Rightarrow> u64 \<Rightarrow> bool \<Rightarrow> u64 \<Rightarrow> u64 \<Rightarrow> u64 \<Rightarrow> fault + quote" where
  "CalcMinAmountOutByAmm slipPageBP amountIn isBuy tokenAmount baseAmount feeRate =
     (if isBuy then CalcMinAmountOutBySwap slipPageBP amountIn baseAmount tokenAmount feeRate
      else CalcMinAmountOutBySwap slipPageBP amountIn tokenAmount baseAmount feeRate)"

definition CalculateMinAmountOut ::
  "u32 \<Rightarrow> u64 \<Rightarrow> bool \<Rightarrow> u64 \<Rightarrow> u64 \<Rightarrow> u64 \<Rightarrow> fault + quote" where
  "CalculateMinAmountOut slippageBP amountIn isBuy tokenAmount baseAmount feeRate =
     (let amountInDec = NewFromUint64 amountIn;
          tokenAmountDec = NewFromUint64 tokenAmount;
          baseAmountDec = NewFromUint64 baseAmount in
      case Div (NewFromUint64 feeRate) (NewFromUint64 1000000) of
        Inl f \<Rightarrow> Inl f
      | Inr feeRateDec \<Rightarrow>
         (let feeDec = Mul amountInDec feeRateDec;
              amountInAfterFee = Sub amountInDec feeDec;
              (inReserve, outReserve) =
                 (if isBuy then (baseAmountDec, tokenAmountDec)
                  else (tokenAmountDec, baseAmountDec));
              k = Mul inReserve outReserve;
              newInReserve = Add inReserve amountInAfterFee in
          case Div k newInReserve of
            Inl f \<Rightarrow> Inl f
          | Inr newOutReserve \<Rightarrow>
             (let amountOut = Sub outReserve newOutReserve in
              case Div (Mul amountOut
                          (Sub (NewFromUint64 10000) (NewFromUint64 (ucast slippageBP))))
                       (NewFromUint64 10000) of
                Inl f \<Rightarrow> Inl f
              | Inr minAmountOut \<Rightarrow>
                  if LessThanOrEqual minAmountOut Zero \<or> LessThanOrEqual amountOut Zero
                  then Inr (0, 0, Some ''calculated amount out is zero or negative'')
                  else Inr (IntPart minAmountOut, IntPart amountOut, None))))"


section \<open>The value of a Decimal and the quote formula\<close>

text \<open>The rational number a Decimal denotes.\<close>

definition dval :: "Decimal \<Rightarrow> rat" where
  "dval d = of_int (d_value d) * 10 powi (d_exp d)"

text \<open>The integer part of a rational (towards zero), and rounding half away from zero.\<close>

definition integer_part :: "rat \<Rightarrow> int" where
  "integer_part x = (if x < 0 then - \<lfloor>- x\<rfloor> else \<lfloor>x\<rfloor>)"

definition round_half_away :: "rat \<Rightarrow> int" where
  "round_half_away x = (if x < 0 then - \<lfloor>- x + 1 / 2\<rfloor> else \<lfloor>x + 1 / 2\<rfloor>)"

text \<open>Rounding to 16 decimal places, the precision of the package's \<^verbatim>\<open>Div\<close>.\<close>

definition round16 :: "rat \<Rightarrow> rat" where
  "round16 x = of_int (round_half_away (x * 10 ^ 16)) / 10 ^ 16"

text \<open>
  The quote formula in the words of the specification (steps 1 to 6 of its algorithm), in
  exact rational arithmetic.  The arguments are in the order of
  \<^verbatim>\<open>CalcMinAmountOutBySwap\<close>: slippage, amount in, input reserve, output reserve,
  fee rate numerator.
\<close>

definition spec_fee :: "u64 \<Rightarrow> u64 \<Rightarrow> rat" where
  "spec_fee amountIn feeRate = of_int (uint amountIn) * (of_int (uint feeRate) / 1000000)"

definition spec_amountInNet :: "u64 \<Rightarrow> u64 \<Rightarrow> rat" where
  "spec_amountInNet amountIn feeRate = of_int (uint amountIn) - spec_fee amountIn feeRate"

definition spec_k :: "u64 \<Rightarrow> u64 \<Rightarrow> rat" where
  "spec_k inputReserve outputReserve = of_int (uint inputReserve) * of_int (uint outputReserve)"

definition spec_newInputReserve :: "u64 \<Rightarrow> u64 \<Rightarrow> u64 \<Rightarrow> rat" where
  "spec_newInputReserve amountIn inputReserve feeRate =
     of_int (uint inputReserve) + spec_amountInNet amountIn feeRate"

definition spec_newOutputReserve :: "u64 \<Rightarrow> u64 \<Rightarrow> u64 \<Rightarrow> u64 \<Rightarrow> rat" where
  "spec_newOutputReserve amountIn inputReserve outputReserve feeRate =
     spec_k inputReserve outputReserve / spec_newInputReserve amountIn inputReserve feeRate"

definition spec_exactAmountOut :: "u64 \<Rightarrow> u64 \<Rightarrow> u64 \<Rightarrow> u64 \<Rightarrow> rat" where
  "spec_exactAmountOut amountIn inputReserve outputReserve feeRate =
     of_int (uint outputReserve) - spec_newOutputReserve amountIn inputReserve outputReserve feeRate"

definition spec_minAmountOut :: "u32 \<Rightarrow> u64 \<Rightarrow> u64 \<Rightarrow> u64 \<Rightarrow> u64 \<Rightarrow> rat" where
  "spec_minAmountOut slippageBasisPoints amountIn inputReserve outputReserve feeRate =
     spec_exactAmountOut amountIn inputReserve outputReserve feeRate
       * (10000 - of_int (uint slippageBasisPoints)) / 10000"

text \<open>
  The same formula with the quotients rounded the way \<^verbatim>\<open>Div\<close> rounds them: the new
  output reserve to 16 decimal places in both functions, and the minimum amount out to 16
  decimal places in \<^verbatim>\<open>CalculateMinAmountOut\<close>, which divides last, while
  \<^verbatim>\<open>CalcMinAmountOutBySwap\<close> multiplies by the quotient \<open>(10000 - slippage) / 10000\<close>.
\<close>

definition rounded_newOutputReserve :: "u64 \<Rightarrow> u64 \<Rightarrow> u64 \<Rightarrow> u64 \<Rightarrow> rat" where
  "rounded_newOutputReserve amountIn inputReserve outputReserve feeRate =
     round16 (spec_k inputReserve outputReserve / spec_newInputReserve amountIn inputReserve feeRate)"

definition rounded_exactAmountOut :: "u64 \<Rightarrow> u64 \<Rightarrow> u64 \<Rightarrow> u64 \<Rightarrow> rat" where
  "rounded_exactAmountOut amountIn inputReserve outputReserve feeRate =
     of_int (uint outputReserve)
       - rounded_newOutputReserve amountIn inputReserve outputReserve feeRate"

definition swap_minAmountOut :: "u32 \<Rightarrow> u64 \<Rightarrow> u64 \<Rightarrow> u64 \<Rightarrow> u64 \<Rightarrow> rat" where
  "swap_minAmountOut slippageBasisPoints amountIn inputReserve outputReserve feeRate =
     rounded_exactAmountOut amountIn inputReserve outputReserve feeRate
       * ((10000 - of_int (uint slippageBasisPoints)) / 10000)"

definition calc_minAmountOut :: "u32 \<Rightarrow> u64 \<Rightarrow> u64 \<Rightarrow> u64 \<Rightarrow> u64 \<Rightarrow> rat" where
  "calc_minAmountOut slippageBasisPoints amountIn inputReserve outputReserve feeRate =
     round16 (rounded_exactAmountOut amountIn inputReserve outputReserve feeRate
       * (10000 - of_int (uint slippageBasisPoints)) / 10000)"

section \<open>The instruction classifier of the transaction decoder\<close>

text \<open>
  \<^verbatim>\<open>analyzeTransactionWithRPC\<close> classifies the data of every instruction of the
  PumpSwap program inside its loop over the instructions.  The model is that part of the
  loop body: it starts when \<^verbatim>\<open>instDataBytes\<close> has been determined and ends with the
  computation of \<^verbatim>\<open>instructionType\<close>.  It reads and writes the detection variables and
  the summary declared before the loop, and it prints; every \<^verbatim>\<open>fmt.Printf\<close> of the
  fragment is a constructor of \<open>printed\<close> with the values it formats.  The variable
  \<^verbatim>\<open>isPumpSwap\<close> is set before the fragment and not touched by it, and the attempt to
  read \<^verbatim>\<open>inst.Data\<close> as base58 text comes before it.
\<close>

definition BuyDiscriminator :: "byte list" where
  "BuyDiscriminator = [102, 6, 61, 18, 1, 218, 235, 234]"

definition SellDiscriminator :: "byte list" where
  "SellDiscriminator = [143, 244, 89, 80, 224, 16, 16, 88]"

definition CreatePoolDiscriminator :: "byte list" where
  "CreatePoolDiscriminator = [175, 175, 109, 31, 13, 152, 155, 9]"

text \<open>
  The fields of \<^verbatim>\<open>TransactionSummary\<close> but \<^verbatim>\<open>TokenInfo\<close>, a pointer that only the
  token lookup over RPC sets.  The amounts are plain \<^verbatim>\<open>uint64\<close> fields.
\<close>

record TransactionSummary =
  Operation :: string
  Direction :: string
  BaseMint :: string
  AmountIn :: u64
  AmountOut :: u64
  BaseMintName :: string

datatype printed =
    LengthOfInstDataBytes nat
  | InstructionDiscriminator "byte list"
  | BuyParameters
  | BaseAmountOut u64
  | MaxQuoteAmountIn u64
  | SellParameters
  | BaseAmountIn u64
  | MinQuoteAmountOut u64
  | DetectedCreatePool
  | UnknownInstructionType "byte list"
  | InstructionData nat "byte list"
  | DataTooShort nat

record analysis =
  isSwapInstruction :: bool
  isBuy :: bool
  isSell :: bool
  summary :: TransactionSummary
  stdout :: "printed list"

text \<open>The state before the loop, with nothing printed yet.\<close>

definition initial_analysis :: analysis where
  "initial_analysis =
     \<lparr>isSwapInstruction = False, isBuy = False, isSell = False,
      summary = \<lparr>Operation = ''Unknown'', Direction = ''Unknown'', BaseMint = ''Unknown'',
                 AmountIn = 0, AmountOut = 0, BaseMintName = []\<rparr>,
      stdout = []\<rparr>"

definition Printf :: "printed \<Rightarrow> analysis \<Rightarrow> analysis" where
  "Printf p st = st\<lparr>stdout := stdout st @ [p]\<rparr>"

text \<open>The arrow of the direction strings, U+2192, in the UTF-8 bytes of a Go string.\<close>

definition arrow :: string where
  "arrow = [CHR 0xE2, CHR 0x86, CHR 0x92]"

text \<open>
  \<^verbatim>\<open>binary.LittleEndian.Uint64\<close> reads the first eight bytes of a slice and panics on
  a shorter one.
\<close>

fun Uint64 :: "byte list \<Rightarrow> fault + u64" where
  "Uint64 (b0 # b1 # b2 # b3 # b4 # b5 # b6 # b7 # _) =
     Inr (ucast b0 OR push_bit 8 (ucast b1) OR push_bit 16 (ucast b2)
          OR push_bit 24 (ucast b3) OR push_bit 32 (ucast b4) OR push_bit 40 (ucast b5)
          OR push_bit 48 (ucast b6) OR push_bit 56 (ucast b7))"
| "Uint64 _ = Inl IndexOutOfRange"

text \<open>\<^verbatim>\<open>encodeU64\<close> of the swap command: the little-endian bytes of a uint64.\<close>

definition encodeU64 :: "u64 \<Rightarrow> byte list" where
  "encodeU64 val =
     [ucast val, ucast (drop_bit 8 val), ucast (drop_bit 16 val), ucast (drop_bit 24 val),
      ucast (drop_bit 32 val), ucast (drop_bit 40 val), ucast (drop_bit 48 val),
      ucast (drop_bit 56 val)]"

text \<open>
  The classification of one instruction's data.  The result is the updated state and
  \<^verbatim>\<open>currentDiscriminator\<close>, which stays nil (the empty list) when the data is shorter
  than 8 bytes.  The slices \<^verbatim>\<open>instDataBytes[8:16]\<close> and \<^verbatim>\<open>instDataBytes[16:24]\<close>
  are taken under the test \<^verbatim>\<open>len(instDataBytes) >= 24\<close>.
\<close>

definition classifyInstData :: "byte list \<Rightarrow> analysis \<Rightarrow> fault + (analysis \<times> byte list)" where
  "classifyInstData instDataBytes st0 =
     (let st = Printf (LengthOfInstDataBytes (length instDataBytes)) st0 in
      if length instDataBytes \<ge> 8 then
        (let currentDiscriminator = take 8 instDataBytes;
             st = Printf (InstructionDiscriminator currentDiscriminator) st in
         if currentDiscriminator = BuyDiscriminator then
           (let st = st\<lparr>isSwapInstruction := True, isBuy := True,
                         summary := (summary st)\<lparr>Operation := ''Swap'',
                           Direction := ''Buy (SOL '' @ arrow @ '' Token)''\<rparr>\<rparr> in
            if length instDataBytes \<ge> 24 then
              (case Uint64 (take 8 (drop 8 instDataBytes)) of
                 Inl f \<Rightarrow> Inl f
               | Inr baseAmountOut \<Rightarrow>
                  (case Uint64 (take 8 (drop 16 instDataBytes)) of
                     Inl f \<Rightarrow> Inl f
                   | Inr maxQuoteAmountIn \<Rightarrow>
                      (let st = st\<lparr>summary := (summary st)\<lparr>AmountOut := baseAmountOut,
                                       AmountIn := maxQuoteAmountIn\<rparr>\<rparr>;
                           st = Printf BuyParameters st;
                           st = Printf (BaseAmountOut baseAmountOut) st;
                           st = Printf (MaxQuoteAmountIn maxQuoteAmountIn) st
                       in Inr (st, currentDiscriminator))))
            else Inr (st, currentDiscriminator))
         else if currentDiscriminator = SellDiscriminator then
           (let st = st\<lparr>isSwapInstruction := True, isSell := True,
                         summary := (summary st)\<lparr>Operation := ''Swap'',
                           Direction := ''Sell (Token '' @ arrow @ '' SOL)''\<rparr>\<rparr> in
            if length instDataBytes \<ge> 24 then
              (case Uint64 (take 8 (drop 8 instDataBytes)) of
                 Inl f \<Rightarrow> Inl f
               | Inr baseAmountIn \<Rightarrow>
                  (case Uint64 (take 8 (drop 16 instDataBytes)) of
                     Inl f \<Rightarrow> Inl f
                   | Inr minQuoteAmountOut \<Rightarrow>
                      (let st = st\<lparr>summary := (summary st)\<lparr>AmountIn := baseAmountIn,
                                       AmountOut := minQuoteAmountOut\<rparr>\<rparr>;
                           st = Printf SellParameters st;
                           st = Printf (BaseAmountIn baseAmountIn) st;
                           st = Printf (MinQuoteAmountOut minQuoteAmountOut) st
                       in Inr (st, currentDiscriminator))))
            else Inr (st, currentDiscriminator))
         else if currentDiscriminator = CreatePoolDiscriminator then
           (let st = st\<lparr>summary := (summary st)\<lparr>Operation := ''CreatePool''\<rparr>\<rparr>;
                st = Printf DetectedCreatePool st
            in Inr (st, currentDiscriminator))
         else
           (let st = Printf (UnknownInstructionType currentDiscriminator) st;
                maxPrint = (if length instDataBytes > 32 then 32 else length instDataBytes);
                st = Printf (InstructionData maxPrint (take maxPrint instDataBytes)) st
            in Inr (st, currentDiscriminator)))
      else Inr (Printf (DataTooShort (length instDataBytes)) st, []))"

text \<open>\<^verbatim>\<open>instructionType\<close>, computed from \<^verbatim>\<open>currentDiscriminator\<close> after the classification.\<close>

definition instructionType :: "byte list \<Rightarrow> string" where
  "instructionType currentDiscriminator =
     (if currentDiscriminator = BuyDiscriminator then ''Buy''
      else if currentDiscriminator = SellDiscriminator then ''Sell''
      else if currentDiscriminator = CreatePoolDiscriminator then ''CreatePool''
      else ''Unknown'')"

section \<open>What the decimal operations compute\<close>

text \<open>
  Each operation of the package is characterised by the rational value of its result:
  addition, subtraction and multiplication are exact, \<^verbatim>\<open>Div\<close> rounds the quotient to
  16 decimal places, half away from zero, and panics on a zero divisor, and
  \<^verbatim>\<open>IntPart\<close> truncates towards zero.
\<close>

lemma ten_powi_pos: "0 < (10::rat) powi e"
  by simp

lemma ten_powi_split: "(10::rat) powi (a + b) = 10 powi a * 10 powi b"
  by (simp add: power_int_add)

lemma dval_rescale_down:
  assumes "e \<le> d_exp d"
  shows "dval (rescale d e) = dval d" and "d_exp (rescale d e) = e"
proof -
  show "d_exp (rescale d e) = e"
    by (simp add: rescale_def Let_def)
  show "dval (rescale d e) = dval d"
  proof (cases "d_exp d = e")
    case True
    then show ?thesis by (simp add: rescale_def)
  next
    case False
    with assms have lt: "e < d_exp d" by simp
    have "(10::rat) powi (d_exp d) = 10 powi (d_exp d - e) * 10 powi e"
      using ten_powi_split [of "d_exp d - e" e] by simp
    moreover have "(10::rat) powi (d_exp d - e) = 10 ^ nat (d_exp d - e)"
      using lt by (simp add: power_int_def)
    moreover have "\<bar>e - d_exp d\<bar> = d_exp d - e" using lt by simp
    ultimately show ?thesis
      using lt False by (simp add: rescale_def dval_def Let_def)
  qed
qed

lemma RescalePair_dval:
  "dval (fst (RescalePair d1 d2)) = dval d1"
  "dval (snd (RescalePair d1 d2)) = dval d2"
  "d_exp (fst (RescalePair d1 d2)) = min (d_exp d1) (d_exp d2)"
  "d_exp (snd (RescalePair d1 d2)) = min (d_exp d1) (d_exp d2)"
  by (simp_all add: RescalePair_def dval_rescale_down)

lemma dval_same_exp:
  "d_exp x = d_exp y \<Longrightarrow> dval x + dval y = of_int (d_value x + d_value y) * 10 powi (d_exp x)"
  "d_exp x = d_exp y \<Longrightarrow> dval x - dval y = of_int (d_value x - d_value y) * 10 powi (d_exp x)"
  by (simp_all add: dval_def algebra_simps)

lemma dval_Add: "dval (Add d d2) = dval d + dval d2"
proof -
  obtain rd rd2 where p: "RescalePair d d2 = (rd, rd2)" by (cases "RescalePair d d2")
  have e: "d_exp rd = d_exp rd2" and v: "dval rd = dval d" "dval rd2 = dval d2"
    using RescalePair_dval [of d d2] p by simp_all
  have "dval (Add d d2) = of_int (d_value rd + d_value rd2) * 10 powi (d_exp rd)"
    by (simp add: Add_def p dval_def)
  then show ?thesis using dval_same_exp(1) [OF e] v by simp
qed

lemma dval_Sub: "dval (Sub d d2) = dval d - dval d2"
proof -
  obtain rd rd2 where p: "RescalePair d d2 = (rd, rd2)" by (cases "RescalePair d d2")
  have e: "d_exp rd = d_exp rd2" and v: "dval rd = dval d" "dval rd2 = dval d2"
    using RescalePair_dval [of d d2] p by simp_all
  have "dval (Sub d d2) = of_int (d_value rd - d_value rd2) * 10 powi (d_exp rd)"
    by (simp add: Sub_def p dval_def)
  then show ?thesis using dval_same_exp(2) [OF e] v by simp
qed

lemma d_exp_Add: "d_exp (Add d d2) = min (d_exp d) (d_exp d2)"
  using RescalePair_dval(3) [of d d2] by (simp add: Add_def split_beta)

lemma d_exp_Sub: "d_exp (Sub d d2) = min (d_exp d) (d_exp d2)"
  using RescalePair_dval(3) [of d d2] by (simp add: Sub_def split_beta)

lemma dval_Mul: "dval (Mul d d2) = dval d * dval d2"
  by (simp add: Mul_def dval_def power_int_add)

lemma dval_NewFromUint64: "dval (NewFromUint64 w) = of_int (uint w)"
  by (simp add: NewFromUint64_def dval_def)

lemma dval_NewFromInt: "dval (NewFromInt v) = of_int v"
  by (simp add: NewFromInt_def dval_def)

lemma ten_powi_not_neg: "\<not> (10::rat) powi e < 0"
  using ten_powi_pos [of e] by (simp add: not_less less_imp_le)

lemma dval_eq_0_iff: "dval d = 0 \<longleftrightarrow> d_value d = 0"
  by (simp add: dval_def)

lemma dval_pos_iff: "0 < dval d \<longleftrightarrow> 0 < d_value d"
  by (simp add: dval_def zero_less_mult_iff ten_powi_not_neg)

lemma dval_neg_iff: "dval d < 0 \<longleftrightarrow> d_value d < 0"
  by (simp add: dval_def mult_less_0_iff ten_powi_not_neg)

lemma IsPositive_iff: "IsPositive d \<longleftrightarrow> 0 < dval d"
  by (simp add: IsPositive_def Sign_def dval_pos_iff sgn_if)

lemma Cmp_sgn: "Cmp d d2 = sgn (d_value (Sub d d2))"
  by (auto simp: Cmp_def Sub_def RescalePair_def split_beta)

lemma Cmp_neg_iff: "Cmp d d2 < 0 \<longleftrightarrow> dval d < dval d2"
  using dval_neg_iff [of "Sub d d2"] by (simp add: Cmp_sgn dval_Sub)

lemma Cmp_zero_iff: "Cmp d d2 = 0 \<longleftrightarrow> dval d = dval d2"
  using dval_eq_0_iff [of "Sub d d2"] by (simp add: Cmp_sgn dval_Sub sgn_if)

lemma Cmp_minus1_iff: "Cmp d d2 = -1 \<longleftrightarrow> dval d < dval d2"
  using dval_neg_iff [of "Sub d d2"] by (simp add: Cmp_sgn dval_Sub sgn_if)

lemma LessThanOrEqual_iff: "LessThanOrEqual d d2 \<longleftrightarrow> dval d \<le> dval d2"
  by (auto simp: LessThanOrEqual_def Cmp_minus1_iff Cmp_zero_iff)

lemma dval_Zero: "dval Zero = 0"
  by (simp add: Zero_def New_def dval_def)

lemma floor_half_up:
  fixes x y :: int
  assumes "0 \<le> x" "0 < y"
  shows "\<lfloor>(of_int x :: rat) / of_int y + 1 / 2\<rfloor> = x div y + (if 2 * (x mod y) < y then 0 else 1)"
proof -
  have "(of_int x :: rat) / of_int y + 1 / 2 = of_int (2 * x + y) / of_int (2 * y)"
    using assms by (simp add: field_simps)
  then have "\<lfloor>(of_int x :: rat) / of_int y + 1 / 2\<rfloor> = (2 * x + y) div (2 * y)"
    by (simp only: floor_divide_of_int_eq)
  also have "2 * x + y = (2 * (x mod y) + y) + (x div y) * (2 * y)"
  proof -
    have "x = (x div y) * y + x mod y" by simp
    then have "2 * x = 2 * ((x div y) * y) + 2 * (x mod y)" by (simp only: distrib_left [symmetric])
    then show ?thesis by (simp add: algebra_simps)
  qed
  also have "((2 * (x mod y) + y) + (x div y) * (2 * y)) div (2 * y)
      = x div y + (2 * (x mod y) + y) div (2 * y)"
    using assms by simp
  also have "(2 * (x mod y) + y) div (2 * y) = (if 2 * (x mod y) < y then 0 else 1)"
  proof (cases "2 * (x mod y) < y")
    case True
    then have "(2 * (x mod y) + y) div (2 * y) = 0"
      using assms by (intro div_pos_pos_trivial) simp_all
    with True show ?thesis by simp
  next
    case False
    have lt: "x mod y < y" using assms by simp
    have "(2 * (x mod y) + y) div (2 * y) = ((2 * (x mod y) - y) + 2 * y) div (2 * y)"
      by (simp add: algebra_simps)
    also have "\<dots> = (2 * (x mod y) - y) div (2 * y) + 1"
      using assms by (intro div_add_self2) simp
    also have "(2 * (x mod y) - y) div (2 * y) = 0"
      using False lt by (intro div_pos_pos_trivial) simp_all
    finally show ?thesis using False by simp
  qed
  finally show ?thesis .
qed

lemma integer_part_divide:
  assumes "y \<noteq> 0"
  shows "integer_part (of_int x / of_int y) = Quo x y"
proof -
  have fl: "\<lfloor>(of_int \<bar>x\<bar> :: rat) / of_int \<bar>y\<bar>\<rfloor> = \<bar>x\<bar> div \<bar>y\<bar>"
    by (rule floor_divide_of_int_eq)
  consider (neg) "(of_int x :: rat) / of_int y < 0" | (zero) "x = 0"
    | (pos) "0 < (of_int x :: rat) / of_int y"
    using assms by (cases "(of_int x :: rat) / of_int y" "0 :: rat" rule: linorder_cases) auto
  then show ?thesis
  proof cases
    case neg
    then have s: "sgn x * sgn y = -1"
      by (auto simp: divide_less_0_iff sgn_if)
    have "- ((of_int x :: rat) / of_int y) = of_int \<bar>x\<bar> / of_int \<bar>y\<bar>"
      using neg by (auto simp: divide_less_0_iff abs_if)
    with neg fl s show ?thesis by (simp add: integer_part_def Quo_def)
  next
    case zero
    then show ?thesis by (simp add: integer_part_def Quo_def)
  next
    case pos
    then have s: "sgn x * sgn y = 1"
      by (auto simp: zero_less_divide_iff sgn_if)
    have "(of_int x :: rat) / of_int y = of_int \<bar>x\<bar> / of_int \<bar>y\<bar>"
      using pos by (auto simp: zero_less_divide_iff abs_if)
    with pos fl s show ?thesis by (simp add: integer_part_def Quo_def not_less [symmetric] less_asym)
  qed
qed

lemma floor_one_half: "\<lfloor>(1::rat) / 2\<rfloor> = 0"
  by (rule floor_unique) simp_all

lemma round_half_away_divide:
  assumes "y \<noteq> 0"
  shows "round_half_away (of_int x / of_int y) =
     Quo x y + (if 2 * \<bar>Rem x y\<bar> < \<bar>y\<bar> then 0 else if sgn x * sgn y < 0 then - 1 else 1)"
proof -
  have ypos: "0 < \<bar>y\<bar>" using assms by simp
  have fl: "\<lfloor>(of_int \<bar>x\<bar> :: rat) / of_int \<bar>y\<bar> + 1 / 2\<rfloor>
      = \<bar>x\<bar> div \<bar>y\<bar> + (if 2 * (\<bar>x\<bar> mod \<bar>y\<bar>) < \<bar>y\<bar> then 0 else 1)"
    by (rule floor_half_up) (use ypos in simp_all)
  have rem: "\<bar>Rem x y\<bar> = \<bar>x\<bar> mod \<bar>y\<bar>"
    using ypos by (simp add: Rem_def abs_mult sgn_if)
  consider (neg) "(of_int x :: rat) / of_int y < 0" | (zero) "x = 0"
    | (pos) "0 < (of_int x :: rat) / of_int y"
    using assms by (cases "(of_int x :: rat) / of_int y" "0 :: rat" rule: linorder_cases) auto
  then show ?thesis
  proof cases
    case neg
    then have s: "sgn x * sgn y = -1"
      by (auto simp: divide_less_0_iff sgn_if)
    have "- ((of_int x :: rat) / of_int y) = of_int \<bar>x\<bar> / of_int \<bar>y\<bar>"
      using neg by (auto simp: divide_less_0_iff abs_if)
    with neg fl s rem show ?thesis by (simp add: round_half_away_def Quo_def)
  next
    case zero
    then show ?thesis using ypos by (simp add: round_half_away_def Quo_def Rem_def floor_one_half)
  next
    case pos
    then have s: "sgn x * sgn y = 1"
      by (auto simp: zero_less_divide_iff sgn_if)
    have "(of_int x :: rat) / of_int y = of_int \<bar>x\<bar> / of_int \<bar>y\<bar>"
      using pos by (auto simp: zero_less_divide_iff abs_if)
    with pos fl s rem show ?thesis
      by (simp add: round_half_away_def Quo_def not_less [symmetric] less_asym)
  qed
qed

lemma Div_by_zero: "d_value d2 = 0 \<Longrightarrow> Div d d2 = Inl DivisionByZero"
  by (simp add: Div_def DivRound_def QuoRem_def)

lemma same_exp_Sub: "d_exp x = e \<Longrightarrow> Sub x (New v e) = \<lparr>d_value = d_value x - v, d_exp = e\<rparr>"
  by (simp add: Sub_def RescalePair_def New_def)

lemma same_exp_Add: "d_exp x = e \<Longrightarrow> Add x (New v e) = \<lparr>d_value = d_value x + v, d_exp = e\<rparr>"
  by (simp add: Add_def RescalePair_def New_def)

lemma Div_nonzero:
  assumes nz: "d_value d2 \<noteq> 0"
  shows "\<exists>r. Div d d2 = Inr r \<and> d_exp r = - 16
           \<and> d_value r = round_half_away (dval d / dval d2 * 10 ^ 16)"
proof -
  define e where "e = d_exp d - d_exp d2 + 16"
  define aa where "aa = (if e < 0 then d_value d else d_value d * 10 ^ nat e)"
  define bb where "bb = (if e < 0 then d_value d2 * 10 ^ nat (- e) else d_value d2)"
  define sr where "sr = (if e < 0 then d_exp d else - 16 + d_exp d2)"
  define q where "q = \<lparr>d_value = Quo aa bb, d_exp = - 16\<rparr>"
  define r where "r = \<lparr>d_value = Rem aa bb, d_exp = sr\<rparr>"
  have qr: "QuoRem d d2 16 = Inr (q, r)"
    using nz by (simp add: QuoRem_def Let_def e_def aa_def bb_def sr_def q_def r_def sgn_0_0)
  have bb0: "bb \<noteq> 0"
    using nz by (simp add: bb_def)
  have pe: "(10::rat) powi e = 10 powi (d_exp d) / 10 powi (d_exp d2) * 10 ^ 16"
    unfolding e_def by (simp add: power_int_add power_int_diff)
  have gen: "dval d / dval d2 * 10 ^ 16 = of_int (d_value d) / of_int (d_value d2) * 10 powi e"
    unfolding pe by (simp add: dval_def)
  have ratio: "(of_int aa :: rat) / of_int bb = dval d / dval d2 * 10 ^ 16"
  proof (cases "e < 0")
    case True
    then have "(10::rat) powi e = 1 / 10 ^ nat (- e)"
      by (simp add: power_int_def divide_simps)
    with True show ?thesis unfolding gen by (simp add: aa_def bb_def)
  next
    case False
    then have "(10::rat) powi e = 10 ^ nat e"
      by (simp add: power_int_def)
    with False show ?thesis unfolding gen by (simp add: aa_def bb_def)
  qed
  have sg: "sgn (d_value d) * sgn (d_value d2) = sgn aa * sgn bb"
    by (simp add: aa_def bb_def sgn_mult)
  define r2 where "r2 = \<lparr>d_value = \<bar>d_value r\<bar> * 2, d_exp = d_exp r + 16\<rparr>"
  have cmp: "Cmp r2 (Abs d2) < 0 \<longleftrightarrow> 2 * \<bar>Rem aa bb\<bar> < \<bar>bb\<bar>"
  proof -
    have l: "dval r2 = of_int (2 * \<bar>Rem aa bb\<bar>) * 10 powi (sr + 16)"
      by (simp add: r2_def r_def dval_def)
    have rr: "dval (Abs d2) = of_int \<bar>d_value d2\<bar> * 10 powi (d_exp d2)"
      by (simp add: Abs_def dval_def)
    show ?thesis
    proof (cases "e < 0")
      case True
      then have s: "sr + 16 = e + d_exp d2" by (simp add: sr_def e_def)
      have p: "(10::rat) powi e = 1 / 10 ^ nat (- e)"
        using True by (simp add: power_int_def divide_simps)
      have "dval r2 < dval (Abs d2) \<longleftrightarrow>
          of_int (2 * \<bar>Rem aa bb\<bar>) * 10 powi e * 10 powi (d_exp d2)
            < (of_int \<bar>d_value d2\<bar> :: rat) * 10 powi (d_exp d2)"
        by (simp add: l rr s power_int_add mult.assoc)
      also have "\<dots> \<longleftrightarrow> of_int (2 * \<bar>Rem aa bb\<bar>) * 10 powi e < (of_int \<bar>d_value d2\<bar> :: rat)"
        by (rule mult_less_cancel_right_pos) simp
      also have "\<dots> \<longleftrightarrow> (of_int (2 * \<bar>Rem aa bb\<bar>) :: rat) < of_int \<bar>d_value d2\<bar> * 10 ^ nat (- e)"
        by (simp add: p pos_divide_less_eq)
      also have "\<dots> \<longleftrightarrow> (of_int (2 * \<bar>Rem aa bb\<bar>) :: rat) < of_int (\<bar>d_value d2\<bar> * 10 ^ nat (- e))"
        by simp
      also have "\<dots> \<longleftrightarrow> 2 * \<bar>Rem aa bb\<bar> < \<bar>d_value d2\<bar> * 10 ^ nat (- e)"
        by (rule of_int_less_iff)
      finally show ?thesis using True by (simp add: Cmp_neg_iff bb_def abs_mult)
    next
      case False
      then have s: "sr + 16 = d_exp d2" by (simp add: sr_def)
      have "dval r2 < dval (Abs d2) \<longleftrightarrow>
          of_int (2 * \<bar>Rem aa bb\<bar>) * 10 powi (d_exp d2)
            < (of_int \<bar>d_value d2\<bar> :: rat) * 10 powi (d_exp d2)"
        by (simp add: l rr s)
      also have "\<dots> \<longleftrightarrow> (of_int (2 * \<bar>Rem aa bb\<bar>) :: rat) < of_int \<bar>d_value d2\<bar>"
        by (rule mult_less_cancel_right_pos) simp
      also have "\<dots> \<longleftrightarrow> 2 * \<bar>Rem aa bb\<bar> < \<bar>d_value d2\<bar>"
        by (rule of_int_less_iff)
      finally show ?thesis using False by (simp add: Cmp_neg_iff bb_def)
    qed
  qed
  define res where "res = (if 2 * \<bar>Rem aa bb\<bar> < \<bar>bb\<bar> then q
      else if sgn aa * sgn bb < 0 then Sub q (New 1 (- 16)) else Add q (New 1 (- 16)))"
  have "DivRound d d2 16 = Inr res"
    using cmp sg by (simp add: DivRound_def qr Let_def r2_def res_def)
  moreover have "d_exp res = - 16"
    by (simp add: res_def q_def same_exp_Sub same_exp_Add)
  moreover have "d_value res = Quo aa bb
      + (if 2 * \<bar>Rem aa bb\<bar> < \<bar>bb\<bar> then 0 else if sgn aa * sgn bb < 0 then - 1 else 1)"
    by (simp add: res_def q_def same_exp_Sub same_exp_Add)
  ultimately show ?thesis
    using round_half_away_divide [OF bb0, of aa] ratio
    by (simp add: Div_def DivisionPrecision_def)
qed

lemma dval_round16:
  assumes "d_exp r = - 16" "d_value r = round_half_away (x * 10 ^ 16)"
  shows "dval r = round16 x"
  using assms by (simp add: dval_def round16_def power_int_def divide_simps)

lemma d_value_rescale_0: "d_value (rescale d 0) = integer_part (dval d)"
proof (cases "d_exp d" "0::int" rule: linorder_cases)
  case less
  then have "(10::rat) powi (d_exp d) = 1 / of_int (10 ^ nat (- d_exp d))"
    by (simp add: power_int_def divide_simps)
  then have "dval d = of_int (d_value d) / of_int (10 ^ nat (- d_exp d))"
    by (simp add: dval_def)
  moreover have "(10::int) ^ nat (- d_exp d) \<noteq> 0" by simp
  ultimately have "integer_part (dval d) = Quo (d_value d) (10 ^ nat (- d_exp d))"
    using integer_part_divide by metis
  moreover have "\<bar>- d_exp d\<bar> = - d_exp d" using less by simp
  ultimately show ?thesis using less by (simp add: rescale_def Let_def)
next
  case equal
  then show ?thesis by (simp add: rescale_def dval_def integer_part_def)
next
  case greater
  then have "dval d = of_int (d_value d * 10 ^ nat (d_exp d))"
    by (simp add: dval_def power_int_def)
  then have "integer_part (dval d) = d_value d * 10 ^ nat (d_exp d)"
    unfolding integer_part_def by (simp only: floor_of_int of_int_minus [symmetric]) simp
  then show ?thesis using greater by (simp add: rescale_def Let_def)
qed

lemma IntPart_integer_part: "IntPart d = word_of_int (integer_part (dval d))"
  by (simp add: IntPart_def d_value_rescale_0)

lemma round_half_away_of_int: "round_half_away (of_int n) = n"
proof -
  have a: "\<lfloor>(of_int n :: rat) + 1 / 2\<rfloor> = n"
    by (rule floor_unique) simp_all
  have "- (of_int n :: rat) + 1 / 2 = of_int (- n) + 1 / 2" by simp
  then have b: "\<lfloor>- (of_int n :: rat) + 1 / 2\<rfloor> = - n"
    by (simp only:) (rule floor_unique, simp_all)
  show ?thesis by (simp add: round_half_away_def a b floor_one_half)
qed

lemma round16_grid: "x * 10 ^ 16 = of_int n \<Longrightarrow> round16 x = x"
  by (simp add: round16_def round_half_away_of_int)

lemma round16_fee_rate: "round16 (of_int f / 1000000) = of_int f / 1000000"
  by (rule round16_grid [where n = "f * 10 ^ 10"]) simp

lemma round16_bp: "round16 (of_int s / 10000) = of_int s / 10000"
  by (rule round16_grid [where n = "s * 10 ^ 12"]) simp

lemma Div_Inr:
  assumes "dval d2 \<noteq> 0"
  obtains r where "Div d d2 = Inr r" "dval r = round16 (dval d / dval d2)"
proof -
  from assms have "d_value d2 \<noteq> 0" by (simp add: dval_eq_0_iff)
  from Div_nonzero [OF this, of d] obtain r where
    "Div d d2 = Inr r" "d_exp r = - 16" "d_value r = round_half_away (dval d / dval d2 * 10 ^ 16)"
    by blast
  then show thesis using that dval_round16 by blast
qed

lemma Div_Inl: "dval d2 = 0 \<Longrightarrow> Div d d2 = Inl DivisionByZero"
  by (simp add: Div_by_zero dval_eq_0_iff)

lemma uint_ucast_32_64: "uint (ucast (s :: u32) :: u64) = uint s"
  by (simp add: uint_up_ucast is_up)

section \<open>What the quote functions compute\<close>

text \<open>
  The two quote functions in closed form.  They panic exactly when the divisor
  \<open>inputReserve + amountInNet\<close> is zero.  Otherwise they return the amounts (0, 0) when a
  computed amount is not positive, and else the integer parts of the computed amounts as
  64-bit words.  In \<^verbatim>\<open>CalculateMinAmountOut\<close> the direction chooses which reserve is the
  input reserve \<open>i\<close> and which the output reserve \<open>out\<close>.
\<close>

lemma dval_constants: "dval FeeRateDenominatorValue = 1000000" "dval AllBpDecimal = 10000"
    "dval (NewFromUint64 1000000) = 1000000" "dval (NewFromUint64 10000) = 10000"
  by (simp_all add: FeeRateDenominatorValue_def AllBpDecimal_def dval_NewFromUint64 dval_NewFromInt)

lemma Div_fee_rate:
  assumes "dval D = 1000000"
  obtains fr where "Div (NewFromUint64 f) D = Inr fr" "dval fr = of_int (uint f) / 1000000"
proof -
  have "dval D \<noteq> 0" using assms by simp
  then obtain r where r: "Div (NewFromUint64 f) D = Inr r"
      "dval r = round16 (dval (NewFromUint64 f) / dval D)"
    by (rule Div_Inr)
  have "dval r = of_int (uint f) / 1000000"
    unfolding r(2) assms dval_NewFromUint64 by (rule round16_fee_rate)
  with r(1) show thesis by (rule that)
qed

lemma Div_ratio:
  assumes "dval D = 10000" "dval A = 10000"
  obtains r where "Div (Sub A (NewFromUint64 (ucast (s::u32)))) D = Inr r"
    "dval r = (10000 - of_int (uint s)) / 10000"
proof -
  have "dval D \<noteq> 0" using assms by simp
  then obtain r where r: "Div (Sub A (NewFromUint64 (ucast s))) D = Inr r"
      "dval r = round16 (dval (Sub A (NewFromUint64 (ucast s))) / dval D)"
    by (rule Div_Inr)
  have v: "dval (Sub A (NewFromUint64 (ucast s))) = of_int (10000 - uint s)"
    unfolding dval_Sub assms dval_NewFromUint64 uint_ucast_32_64 by simp
  have "dval r = of_int (10000 - uint s) / 10000"
    unfolding r(2) v assms by (rule round16_bp)
  then have "dval r = (10000 - of_int (uint s)) / 10000" by simp
  with r(1) show thesis by (rule that)
qed

lemma CalcMinAmountOutBySwap_eq:
  "CalcMinAmountOutBySwap s a i out f =
     (if spec_newInputReserve a i f = 0 then Inl DivisionByZero
      else if swap_minAmountOut s a i out f \<le> 0 \<or> rounded_exactAmountOut a i out f \<le> 0
        then Inr (0, 0, None)
      else Inr (word_of_int (integer_part (swap_minAmountOut s a i out f)),
                word_of_int (integer_part (rounded_exactAmountOut a i out f)), None))"
proof -
  obtain fr where fr: "Div (NewFromUint64 f) FeeRateDenominatorValue = Inr fr"
    and frv: "dval fr = of_int (uint f) / 1000000"
    using Div_fee_rate [OF dval_constants(1)] by blast
  obtain ratio where ratio:
      "Div (Sub AllBpDecimal (NewFromUint64 (ucast s))) AllBpDecimal = Inr ratio"
    and ratiov: "dval ratio = (10000 - of_int (uint s)) / 10000"
    using Div_ratio [OF dval_constants(2) dval_constants(2)] by blast
  define net where "net = Sub (NewFromUint64 a) (Mul (NewFromUint64 a) fr)"
  define newIn where "newIn = Add (NewFromUint64 i) net"
  define prod where "prod = Mul (NewFromUint64 i) (NewFromUint64 out)"
  have newInv: "dval newIn = spec_newInputReserve a i f"
    unfolding newIn_def net_def dval_Add dval_Sub dval_Mul dval_NewFromUint64 frv
        spec_newInputReserve_def spec_amountInNet_def spec_fee_def ..
  have prodv: "dval prod = spec_k i out"
    unfolding prod_def dval_Mul dval_NewFromUint64 spec_k_def ..
  have unfold: "CalcMinAmountOutBySwap s a i out f =
     (case Div prod newIn of
        Inl e \<Rightarrow> Inl e
      | Inr q \<Rightarrow>
          if \<not> IsPositive (Mul (Sub (NewFromUint64 out) q) ratio)
             \<or> \<not> IsPositive (Sub (NewFromUint64 out) q)
          then Inr (0, 0, None)
          else Inr (IntPart (Mul (Sub (NewFromUint64 out) q) ratio),
                    IntPart (Sub (NewFromUint64 out) q), None))"
    unfolding CalcMinAmountOutBySwap_def Let_def fr ratio net_def newIn_def prod_def sum.case ..
  show ?thesis
  proof (cases "spec_newInputReserve a i f = 0")
    case True
    then have "Div prod newIn = Inl DivisionByZero"
      using newInv by (intro Div_Inl) simp
    with True show ?thesis unfolding unfold by simp
  next
    case False
    then have "dval newIn \<noteq> 0" using newInv by simp
    then obtain q where q: "Div prod newIn = Inr q"
      and qv0: "dval q = round16 (dval prod / dval newIn)"
      by (rule Div_Inr)
    have qv: "dval q = rounded_newOutputReserve a i out f"
      unfolding qv0 prodv newInv rounded_newOutputReserve_def ..
    have outv: "dval (Sub (NewFromUint64 out) q) = rounded_exactAmountOut a i out f"
      unfolding dval_Sub dval_NewFromUint64 qv rounded_exactAmountOut_def ..
    have minv: "dval (Mul (Sub (NewFromUint64 out) q) ratio) = swap_minAmountOut s a i out f"
      unfolding dval_Mul outv ratiov swap_minAmountOut_def ..
    show ?thesis
      unfolding unfold q sum.case IsPositive_iff IntPart_integer_part outv minv
      using False by (simp add: not_less)
  qed
qed

lemma CalculateMinAmountOut_roles:
  assumes "i = (if buy then b else t)" "out = (if buy then t else b)"
  shows "CalculateMinAmountOut s a buy t b f =
     (if spec_newInputReserve a i f = 0 then Inl DivisionByZero
      else if calc_minAmountOut s a i out f \<le> 0 \<or> rounded_exactAmountOut a i out f \<le> 0
        then Inr (0, 0, Some ''calculated amount out is zero or negative'')
      else Inr (word_of_int (integer_part (calc_minAmountOut s a i out f)),
                word_of_int (integer_part (rounded_exactAmountOut a i out f)), None))"
proof -
  obtain fr where fr: "Div (NewFromUint64 f) (NewFromUint64 1000000) = Inr fr"
    and frv: "dval fr = of_int (uint f) / 1000000"
    using Div_fee_rate [OF dval_constants(3)] by blast
  define net where "net = Sub (NewFromUint64 a) (Mul (NewFromUint64 a) fr)"
  define newIn where "newIn = Add (NewFromUint64 i) net"
  define prod where "prod = Mul (NewFromUint64 i) (NewFromUint64 out)"
  define bps where "bps = Sub (NewFromUint64 10000) (NewFromUint64 (ucast s))"
  have newInv: "dval newIn = spec_newInputReserve a i f"
    unfolding newIn_def net_def dval_Add dval_Sub dval_Mul dval_NewFromUint64 frv
        spec_newInputReserve_def spec_amountInNet_def spec_fee_def ..
  have prodv: "dval prod = spec_k i out"
    unfolding prod_def dval_Mul dval_NewFromUint64 spec_k_def ..
  have bpsv: "dval bps = 10000 - of_int (uint s)"
    unfolding bps_def dval_Sub dval_NewFromUint64 uint_ucast_32_64 by simp
  have unfold: "CalculateMinAmountOut s a buy t b f =
     (case Div prod newIn of
        Inl e \<Rightarrow> Inl e
      | Inr q \<Rightarrow>
         (case Div (Mul (Sub (NewFromUint64 out) q) bps) (NewFromUint64 10000) of
            Inl e \<Rightarrow> Inl e
          | Inr m \<Rightarrow>
              if LessThanOrEqual m Zero \<or> LessThanOrEqual (Sub (NewFromUint64 out) q) Zero
              then Inr (0, 0, Some ''calculated amount out is zero or negative'')
              else Inr (IntPart m, IntPart (Sub (NewFromUint64 out) q), None)))"
  proof (cases buy)
    case True
    then have io: "i = b" "out = t" using assms by simp_all
    show ?thesis
      unfolding CalculateMinAmountOut_def Let_def fr net_def newIn_def prod_def bps_def sum.case io
      using True by simp
  next
    case False
    then have io: "i = t" "out = b" using assms by simp_all
    show ?thesis
      unfolding CalculateMinAmountOut_def Let_def fr net_def newIn_def prod_def bps_def sum.case io
      using False by simp
  qed
  show ?thesis
  proof (cases "spec_newInputReserve a i f = 0")
    case True
    then have "Div prod newIn = Inl DivisionByZero"
      using newInv by (intro Div_Inl) simp
    with True show ?thesis unfolding unfold by simp
  next
    case False
    then have "dval newIn \<noteq> 0" using newInv by simp
    then obtain q where q: "Div prod newIn = Inr q"
      and qv0: "dval q = round16 (dval prod / dval newIn)"
      by (rule Div_Inr)
    have qv: "dval q = rounded_newOutputReserve a i out f"
      unfolding qv0 prodv newInv rounded_newOutputReserve_def ..
    have outv: "dval (Sub (NewFromUint64 out) q) = rounded_exactAmountOut a i out f"
      unfolding dval_Sub dval_NewFromUint64 qv rounded_exactAmountOut_def ..
    have "dval (NewFromUint64 10000) \<noteq> 0" unfolding dval_constants by simp
    then obtain m where m: "Div (Mul (Sub (NewFromUint64 out) q) bps) (NewFromUint64 10000) = Inr m"
      and mv0: "dval m = round16 (dval (Mul (Sub (NewFromUint64 out) q) bps) / dval (NewFromUint64 10000))"
      by (rule Div_Inr)
    have minv: "dval m = calc_minAmountOut s a i out f"
      unfolding mv0 dval_Mul outv bpsv dval_constants calc_minAmountOut_def ..
    show ?thesis
      unfolding unfold q m sum.case LessThanOrEqual_iff dval_Zero IntPart_integer_part outv minv
      using False by simp
  qed
qed

section \<open>Properties of rounding and of the rounded formula\<close>

text \<open>
  From here on \<open>of_int (uint w)\<close> stays as it is written in the definitions.
\<close>

declare of_int_uint [simp del]

lemma round_half_away_mono: "x \<le> y \<Longrightarrow> round_half_away x \<le> round_half_away y"
proof -
  assume xy: "x \<le> y"
  have nn: "0 \<le> \<lfloor>z + 1 / 2\<rfloor>" if "0 \<le> z" for z :: rat
    using that by simp
  consider "y < 0" | "x < 0" "0 \<le> y" | "0 \<le> x"
    using xy by linarith
  then show ?thesis
  proof cases
    case 1
    then have "x < 0" using xy by simp
    moreover have "\<lfloor>- y + 1 / 2\<rfloor> \<le> \<lfloor>- x + 1 / 2\<rfloor>"
      using xy by (intro floor_mono) simp
    ultimately show ?thesis using 1 by (simp add: round_half_away_def)
  next
    case 2
    have "0 \<le> \<lfloor>- x + 1 / 2\<rfloor>" using 2 by (intro nn) simp
    moreover have "0 \<le> \<lfloor>y + 1 / 2\<rfloor>" using 2 by (intro nn)
    moreover have "round_half_away x = - \<lfloor>- x + 1 / 2\<rfloor>" "round_half_away y = \<lfloor>y + 1 / 2\<rfloor>"
      using 2 by (simp_all add: round_half_away_def)
    ultimately show ?thesis by linarith
  next
    case 3
    then have "0 \<le> y" using xy by simp
    moreover have "\<lfloor>x + 1 / 2\<rfloor> \<le> \<lfloor>y + 1 / 2\<rfloor>"
      using xy by (intro floor_mono) simp
    ultimately show ?thesis using 3 by (simp add: round_half_away_def not_less [symmetric])
  qed
qed

lemma round16_mono: "x \<le> y \<Longrightarrow> round16 x \<le> round16 y"
proof -
  assume "x \<le> y"
  then have "x * 10 ^ 16 \<le> y * 10 ^ 16" by simp
  then have "round_half_away (x * 10 ^ 16) \<le> round_half_away (y * 10 ^ 16)"
    by (rule round_half_away_mono)
  then have "(of_int (round_half_away (x * 10 ^ 16)) :: rat) \<le> of_int (round_half_away (y * 10 ^ 16))"
    by (simp only: of_int_le_iff)
  then show ?thesis unfolding round16_def by (intro divide_right_mono) simp_all
qed

lemma round16_of_int: "round16 (of_int n) = of_int n"
  by (rule round16_grid [where n = "n * 10 ^ 16"]) simp

lemma round16_zero: "round16 0 = 0"
  using round16_of_int [of 0] by simp

lemma round16_on_grid: "round16 x * 10 ^ 16 = of_int (round_half_away (x * 10 ^ 16))"
  by (simp add: round16_def)

lemma round16_idem: "round16 (round16 x) = round16 x"
  by (rule round16_grid) (rule round16_on_grid)

lemma integer_part_mono: "x \<le> y \<Longrightarrow> integer_part x \<le> integer_part y"
proof -
  assume xy: "x \<le> y"
  consider "y < 0" | "x < 0" "0 \<le> y" | "0 \<le> x"
    using xy by linarith
  then show ?thesis
  proof cases
    case 1
    then have "x < 0" using xy by simp
    moreover have "\<lfloor>- y\<rfloor> \<le> \<lfloor>- x\<rfloor>" using xy by (intro floor_mono) simp
    ultimately show ?thesis using 1 by (simp add: integer_part_def)
  next
    case 2
    have "0 \<le> \<lfloor>- x\<rfloor>" using 2 by simp
    moreover have "0 \<le> \<lfloor>y\<rfloor>" using 2 by simp
    moreover have "integer_part x = - \<lfloor>- x\<rfloor>" "integer_part y = \<lfloor>y\<rfloor>"
      using 2 by (simp_all add: integer_part_def)
    ultimately show ?thesis by linarith
  next
    case 3
    then have "0 \<le> y" using xy by simp
    moreover have "\<lfloor>x\<rfloor> \<le> \<lfloor>y\<rfloor>" using xy by (intro floor_mono)
    ultimately show ?thesis using 3 by (simp add: integer_part_def not_less [symmetric])
  qed
qed

lemma integer_part_nonneg: "0 \<le> x \<Longrightarrow> integer_part x = \<lfloor>x\<rfloor>"
  by (simp add: integer_part_def)

lemma integer_part_of_int: "integer_part (of_int n) = n"
  by (simp add: integer_part_def)

lemma round_half_away_close: "\<bar>of_int (round_half_away x) - x\<bar> \<le> 1 / 2"
proof (cases "x < 0")
  case True
  define n where "n = \<lfloor>- x + 1 / 2\<rfloor>"
  have "of_int n \<le> - x + 1 / 2" "- x + 1 / 2 < of_int n + 1"
    unfolding n_def by linarith+
  moreover have "round_half_away x = - n"
    using True by (simp add: round_half_away_def n_def)
  ultimately show ?thesis by (simp add: abs_if)
next
  case False
  define n where "n = \<lfloor>x + 1 / 2\<rfloor>"
  have "of_int n \<le> x + 1 / 2" "x + 1 / 2 < of_int n + 1"
    unfolding n_def by linarith+
  moreover have "round_half_away x = n"
    using False by (simp add: round_half_away_def n_def)
  ultimately show ?thesis by (simp add: abs_if)
qed

lemma word_of_int_u64_le:
  assumes "0 \<le> x" "x \<le> y" "y < 2 ^ 64"
  shows "(word_of_int x :: u64) \<le> word_of_int y"
proof -
  have "uint (word_of_int x :: u64) = x" "uint (word_of_int y :: u64) = y"
    using assms by (simp_all add: uint_word_of_int take_bit_int_eq_self)
  then show ?thesis using assms by (simp add: word_le_def)
qed

lemma uint_word_of_int_u64: "0 \<le> x \<Longrightarrow> x < 2 ^ 64 \<Longrightarrow> uint (word_of_int x :: u64) = x"
  by (simp add: uint_word_of_int take_bit_int_eq_self)

lemma uint_u64_less: "uint (w :: u64) < 2 ^ 64"
  using uint_lt2p [of w] by simp

lemma rat_of_uint_u64_less: "(of_int (uint (w :: u64)) :: rat) < 2 ^ 64"
proof -
  have "(of_int (uint w) :: rat) < of_int (2 ^ 64)"
    by (simp only: of_int_less_iff) (rule uint_u64_less)
  then show ?thesis by simp
qed

lemma round16_nonneg: "0 \<le> x \<Longrightarrow> 0 \<le> round16 x"
  using round16_mono [of 0 x] by (simp add: round16_zero)

lemma round16_nonpos: "x \<le> 0 \<Longrightarrow> round16 x \<le> 0"
  using round16_mono [of x 0] by (simp add: round16_zero)

lemma spec_k_nonneg: "0 \<le> spec_k i out"
  by (simp add: spec_k_def)

lemma rounded_newOutputReserve_nonneg:
  "0 < spec_newInputReserve a i f \<Longrightarrow> 0 \<le> rounded_newOutputReserve a i out f"
  unfolding rounded_newOutputReserve_def
  by (intro round16_nonneg divide_nonneg_pos spec_k_nonneg)

lemma rounded_exactAmountOut_le:
  "0 < spec_newInputReserve a i f \<Longrightarrow> rounded_exactAmountOut a i out f \<le> of_int (uint out)"
  using rounded_newOutputReserve_nonneg [of a i f out]
  by (simp add: rounded_exactAmountOut_def)

lemma rounded_exactAmountOut_grid:
  "round16 (rounded_exactAmountOut a i out f) = rounded_exactAmountOut a i out f"
proof -
  define n where "n = round_half_away
     (spec_k i out / spec_newInputReserve a i f * 10 ^ 16)"
  have "rounded_exactAmountOut a i out f * 10 ^ 16 = of_int (uint out * 10 ^ 16 - n)"
    by (simp add: rounded_exactAmountOut_def rounded_newOutputReserve_def round16_def n_def
        algebra_simps)
  then show ?thesis by (rule round16_grid)
qed

lemma integer_part_less_2p64:
  assumes "x \<le> of_int (uint (w :: u64))"
  shows "integer_part x < 2 ^ 64"
proof -
  have "integer_part x \<le> integer_part (of_int (uint w))"
    using assms by (rule integer_part_mono)
  then show ?thesis using uint_u64_less [of w] by (simp add: integer_part_of_int)
qed

lemma integer_part_pos_nonneg: "0 < x \<Longrightarrow> 0 \<le> integer_part x"
  by (simp add: integer_part_def)

lemma bp_factor_le_one: "(10000 - of_int (uint (s :: u32))) / 10000 \<le> (1 :: rat)"
  by simp

lemma swap_minAmountOut_le:
  assumes "0 < rounded_exactAmountOut a i out f"
  shows "swap_minAmountOut s a i out f \<le> rounded_exactAmountOut a i out f"
proof -
  have "rounded_exactAmountOut a i out f * ((10000 - of_int (uint s)) / 10000)
      \<le> rounded_exactAmountOut a i out f * 1"
    using assms by (intro mult_left_mono bp_factor_le_one) simp
  then show ?thesis by (simp add: swap_minAmountOut_def)
qed

lemma calc_minAmountOut_eq: "calc_minAmountOut s a i out f = round16 (swap_minAmountOut s a i out f)"
  by (simp add: calc_minAmountOut_def swap_minAmountOut_def)

lemma calc_minAmountOut_le:
  assumes "0 < rounded_exactAmountOut a i out f"
  shows "calc_minAmountOut s a i out f \<le> rounded_exactAmountOut a i out f"
  using round16_mono [OF swap_minAmountOut_le [OF assms, of s]]
  by (simp add: calc_minAmountOut_eq rounded_exactAmountOut_grid)

lemma swap_minAmountOut_antitone:
  assumes "0 \<le> rounded_exactAmountOut a i out f" "s1 \<le> s2"
  shows "swap_minAmountOut s2 a i out f \<le> swap_minAmountOut s1 a i out f"
proof -
  have "uint s1 \<le> uint s2" using assms(2) by (simp add: word_le_def)
  then have "(10000 - of_int (uint s2)) / 10000 \<le> ((10000 - of_int (uint s1)) / 10000 :: rat)"
    by simp
  then show ?thesis
    unfolding swap_minAmountOut_def using assms(1) by (intro mult_left_mono)
qed

lemma calc_minAmountOut_antitone:
  assumes "0 \<le> rounded_exactAmountOut a i out f" "s1 \<le> s2"
  shows "calc_minAmountOut s2 a i out f \<le> calc_minAmountOut s1 a i out f"
  unfolding calc_minAmountOut_eq
  by (intro round16_mono swap_minAmountOut_antitone assms)

lemma swap_minAmountOut_zero_slippage:
  "swap_minAmountOut 0 a i out f = rounded_exactAmountOut a i out f"
  by (simp add: swap_minAmountOut_def)

lemma calc_minAmountOut_zero_slippage:
  "calc_minAmountOut 0 a i out f = rounded_exactAmountOut a i out f"
  by (simp add: calc_minAmountOut_eq swap_minAmountOut_zero_slippage rounded_exactAmountOut_grid)

lemma spec_newInputReserve_pos:
  assumes "uint f \<le> 1000000" "spec_newInputReserve a i f \<noteq> 0"
  shows "0 < spec_newInputReserve a i f"
proof -
  have "(of_int (uint f) :: rat) \<le> of_int 1000000"
    using assms(1) by (simp only: of_int_le_iff)
  then have "(of_int (uint f) :: rat) / 1000000 \<le> 1" by simp
  then have "of_int (uint a) * ((of_int (uint f) :: rat) / 1000000) \<le> of_int (uint a) * 1"
    by (intro mult_left_mono) simp_all
  then have "0 \<le> spec_amountInNet a f"
    by (simp add: spec_amountInNet_def spec_fee_def)
  then have "0 \<le> spec_newInputReserve a i f"
    by (simp add: spec_newInputReserve_def)
  with assms(2) show ?thesis by simp
qed

section \<open>The claims about the quote functions\<close>

text \<open>
  C1 (as amended).  Whenever the computation succeeds (the divisor
  \<open>inputReserve + amountInNet\<close> is not zero and the computed amounts are positive), the
  functions return the integer parts of exactAmountOut and minAmountOut computed as
  fee = amountIn * feeRate / 1,000,000; amountInNet = amountIn - fee;
  k = inputReserve * outputReserve; newOutputReserve = k / (inputReserve + amountInNet)
  rounded to 16 decimal places, half away from zero;
  exactAmountOut = outputReserve - newOutputReserve;
  minAmountOut = exactAmountOut * (10000 - slippage) / 10000, which
  \<^verbatim>\<open>CalculateMinAmountOut\<close> rounds to 16 decimal places again.  The integer parts are
  returned modulo 2^64; when \<open>inputReserve + amountInNet\<close> is positive, as it is for every
  fee rate up to 1,000,000 (lemma \<open>spec_newInputReserve_pos\<close>), they are below 2^64 and
  returned as they are.
\<close>

theorem quote_formula_rounded:
  assumes "spec_newInputReserve a i f \<noteq> 0"
    and "0 < rounded_exactAmountOut a i out f"
  shows
   "(0 < swap_minAmountOut s a i out f \<longrightarrow>
       CalcMinAmountOutBySwap s a i out f =
         Inr (word_of_int (integer_part (swap_minAmountOut s a i out f)),
              word_of_int (integer_part (rounded_exactAmountOut a i out f)), None))
    \<and> (0 < calc_minAmountOut s a i out f \<longrightarrow>
       CalculateMinAmountOut s a True out i f =
         Inr (word_of_int (integer_part (calc_minAmountOut s a i out f)),
              word_of_int (integer_part (rounded_exactAmountOut a i out f)), None)
       \<and> CalculateMinAmountOut s a False i out f =
         Inr (word_of_int (integer_part (calc_minAmountOut s a i out f)),
              word_of_int (integer_part (rounded_exactAmountOut a i out f)), None))
    \<and> (0 < spec_newInputReserve a i f \<longrightarrow>
       uint (word_of_int (integer_part (rounded_exactAmountOut a i out f)) :: u64)
         = integer_part (rounded_exactAmountOut a i out f)
       \<and> (0 < swap_minAmountOut s a i out f \<longrightarrow>
            uint (word_of_int (integer_part (swap_minAmountOut s a i out f)) :: u64)
              = integer_part (swap_minAmountOut s a i out f))
       \<and> (0 < calc_minAmountOut s a i out f \<longrightarrow>
            uint (word_of_int (integer_part (calc_minAmountOut s a i out f)) :: u64)
              = integer_part (calc_minAmountOut s a i out f)))"
proof (intro conjI impI)
  assume "0 < swap_minAmountOut s a i out f"
  then show "CalcMinAmountOutBySwap s a i out f =
         Inr (word_of_int (integer_part (swap_minAmountOut s a i out f)),
              word_of_int (integer_part (rounded_exactAmountOut a i out f)), None)"
    using assms by (simp add: CalcMinAmountOutBySwap_eq not_le)
next
  assume "0 < calc_minAmountOut s a i out f"
  then show "CalculateMinAmountOut s a True out i f =
         Inr (word_of_int (integer_part (calc_minAmountOut s a i out f)),
              word_of_int (integer_part (rounded_exactAmountOut a i out f)), None)"
    using assms by (simp add: CalculateMinAmountOut_roles [of i True i out out] not_le)
next
  assume "0 < calc_minAmountOut s a i out f"
  then show "CalculateMinAmountOut s a False i out f =
         Inr (word_of_int (integer_part (calc_minAmountOut s a i out f)),
              word_of_int (integer_part (rounded_exactAmountOut a i out f)), None)"
    using assms by (simp add: CalculateMinAmountOut_roles [of i False out i out] not_le)
next
  assume pos: "0 < spec_newInputReserve a i f"
  have le: "rounded_exactAmountOut a i out f \<le> of_int (uint out)"
    using pos by (rule rounded_exactAmountOut_le)
  show "uint (word_of_int (integer_part (rounded_exactAmountOut a i out f)) :: u64)
         = integer_part (rounded_exactAmountOut a i out f)"
    using assms(2) le
    by (intro uint_word_of_int_u64 integer_part_pos_nonneg integer_part_less_2p64)
  {
    assume m: "0 < swap_minAmountOut s a i out f"
    have "swap_minAmountOut s a i out f \<le> of_int (uint out)"
      using swap_minAmountOut_le [OF assms(2), of s] le by simp
    with m show "uint (word_of_int (integer_part (swap_minAmountOut s a i out f)) :: u64)
              = integer_part (swap_minAmountOut s a i out f)"
      by (intro uint_word_of_int_u64 integer_part_pos_nonneg integer_part_less_2p64)
  }
  {
    assume m: "0 < calc_minAmountOut s a i out f"
    have "calc_minAmountOut s a i out f \<le> of_int (uint out)"
      using calc_minAmountOut_le [OF assms(2), of s] le by simp
    with m show "uint (word_of_int (integer_part (calc_minAmountOut s a i out f)) :: u64)
              = integer_part (calc_minAmountOut s a i out f)"
      by (intro uint_word_of_int_u64 integer_part_pos_nonneg integer_part_less_2p64)
  }
qed

theorem quote_formula_rounded_witness:
  "spec_newInputReserve 100000 1000000 2500 \<noteq> 0
   \<and> 0 < rounded_exactAmountOut 100000 1000000 5000000 2500
   \<and> 0 < swap_minAmountOut 100 100000 1000000 5000000 2500
   \<and> 0 < calc_minAmountOut 100 100000 1000000 5000000 2500
   \<and> CalcMinAmountOutBySwap 100 100000 1000000 5000000 2500 =
       Inr (word_of_int (integer_part (swap_minAmountOut 100 100000 1000000 5000000 2500)),
            word_of_int (integer_part (rounded_exactAmountOut 100000 1000000 5000000 2500)), None)
   \<and> CalculateMinAmountOut 100 100000 True 5000000 1000000 2500 =
       Inr (word_of_int (integer_part (calc_minAmountOut 100 100000 1000000 5000000 2500)),
            word_of_int (integer_part (rounded_exactAmountOut 100000 1000000 5000000 2500)), None)"
proof -
  have h1: "spec_newInputReserve 100000 1000000 2500 \<noteq> 0" by code_simp
  have h2: "0 < rounded_exactAmountOut 100000 1000000 5000000 2500" by code_simp
  have h3: "0 < swap_minAmountOut 100 100000 1000000 5000000 2500" by code_simp
  have h4: "0 < calc_minAmountOut 100 100000 1000000 5000000 2500" by code_simp
  show ?thesis
    using quote_formula_rounded [OF h1 h2, of 100] h1 h2 h3 h4 by blast
qed


text \<open>
  C1, as the specification states it, in exact arithmetic.  With slippage 100, amount in
  100,000, input reserve 1,000,000, output reserve 5,000,000 and fee rate 0 the exact
  amount out is 5,000,000 / 11 and the exact minimum amount out is 450,000, but
  \<^verbatim>\<open>CalcMinAmountOutBySwap\<close> returns 449,999: it multiplies the amount out rounded to
  16 decimal places by 0.99.  With slippage 0, amount in 1, both reserves 10^17 - 1 and
  fee rate 0 the exact amount out is 1 - 10^-17, of integer part 0, and so is the exact
  minimum amount out, but both functions return 1 for both amounts: \<^verbatim>\<open>Div\<close> rounds the
  new output reserve 10^17 - 2 + 10^-17 to 10^17 - 2.
\<close>

theorem quote_formula_exact_counterexample:
  "CalcMinAmountOutBySwap 100 100000 1000000 5000000 0 = Inr (449999, 454545, None)
   \<and> spec_minAmountOut 100 100000 1000000 5000000 0 = 450000
   \<and> integer_part (spec_minAmountOut 100 100000 1000000 5000000 0) = 450000
   \<and> CalcMinAmountOutBySwap 0 1 99999999999999999 99999999999999999 0 = Inr (1, 1, None)
   \<and> CalculateMinAmountOut 0 1 True 99999999999999999 99999999999999999 0 = Inr (1, 1, None)
   \<and> spec_exactAmountOut 1 99999999999999999 99999999999999999 0
       = 1 - 1 / 100000000000000000
   \<and> spec_minAmountOut 0 1 99999999999999999 99999999999999999 0
       = 1 - 1 / 100000000000000000
   \<and> integer_part (spec_exactAmountOut 1 99999999999999999 99999999999999999 0) = 0
   \<and> integer_part (spec_minAmountOut 0 1 99999999999999999 99999999999999999 0) = 0"
proof -
  have "CalcMinAmountOutBySwap 100 100000 1000000 5000000 0 = Inr (449999, 454545, None)"
    by code_simp
  moreover have "spec_minAmountOut 100 100000 1000000 5000000 0 = 450000"
    by code_simp
  moreover have "integer_part (spec_minAmountOut 100 100000 1000000 5000000 0) = 450000"
    by code_simp
  moreover have
    "CalcMinAmountOutBySwap 0 1 99999999999999999 99999999999999999 0 = Inr (1, 1, None)"
    by code_simp
  moreover have
    "CalculateMinAmountOut 0 1 True 99999999999999999 99999999999999999 0 = Inr (1, 1, None)"
    by code_simp
  moreover have "spec_exactAmountOut 1 99999999999999999 99999999999999999 0
       = 1 - 1 / 100000000000000000"
    by code_simp
  moreover have "spec_minAmountOut 0 1 99999999999999999 99999999999999999 0
       = 1 - 1 / 100000000000000000"
    by code_simp
  moreover have "integer_part (spec_exactAmountOut 1 99999999999999999 99999999999999999 0) = 0"
    by code_simp
  moreover have "integer_part (spec_minAmountOut 0 1 99999999999999999 99999999999999999 0) = 0"
    by code_simp
  ultimately show ?thesis by (intro conjI)
qed

text \<open>
  C2 (as amended).  The concrete scenario: input reserve 1,000,000, output reserve
  5,000,000, amount in 100,000, fee rate 2500 over 1,000,000, slippage 100 basis points.
  The fee is 250, the net amount in 99,750 and k is 5 * 10^12, as the specification says.
  The new output reserve 5,000,000,000,000 / 1,099,750 has integer part 4,546,487, and both
  functions return exactAmountOut = 453,512 and minAmountOut = 448,977 with a nil error.
\<close>

theorem concrete_scenario_values:
  "CalcMinAmountOutBySwap 100 100000 1000000 5000000 2500 = Inr (448977, 453512, None)
   \<and> CalcMinAmountOutByAmm 100 100000 True 5000000 1000000 2500 = Inr (448977, 453512, None)
   \<and> CalculateMinAmountOut 100 100000 True 5000000 1000000 2500 = Inr (448977, 453512, None)
   \<and> spec_fee 100000 2500 = 250
   \<and> spec_amountInNet 100000 2500 = 99750
   \<and> spec_k 1000000 5000000 = 5 * 10 ^ 12
   \<and> spec_newOutputReserve 100000 1000000 5000000 2500 = 5000000000000 / 1099750
   \<and> integer_part (spec_newOutputReserve 100000 1000000 5000000 2500) = 4546487
   \<and> integer_part (rounded_newOutputReserve 100000 1000000 5000000 2500) = 4546487
   \<and> integer_part (rounded_exactAmountOut 100000 1000000 5000000 2500) = 453512
   \<and> integer_part (swap_minAmountOut 100 100000 1000000 5000000 2500) = 448977
   \<and> integer_part (calc_minAmountOut 100 100000 1000000 5000000 2500) = 448977"
proof -
  have "CalcMinAmountOutBySwap 100 100000 1000000 5000000 2500 = Inr (448977, 453512, None)"
    by code_simp
  moreover have
    "CalcMinAmountOutByAmm 100 100000 True 5000000 1000000 2500 = Inr (448977, 453512, None)"
    by code_simp
  moreover have
    "CalculateMinAmountOut 100 100000 True 5000000 1000000 2500 = Inr (448977, 453512, None)"
    by code_simp
  moreover have "spec_fee 100000 2500 = 250" by code_simp
  moreover have "spec_amountInNet 100000 2500 = 99750" by code_simp
  moreover have "spec_k 1000000 5000000 = 5 * 10 ^ 12" by code_simp
  moreover have "spec_newOutputReserve 100000 1000000 5000000 2500 = 5000000000000 / 1099750"
    by code_simp
  moreover have "integer_part (spec_newOutputReserve 100000 1000000 5000000 2500) = 4546487"
    by code_simp
  moreover have "integer_part (rounded_newOutputReserve 100000 1000000 5000000 2500) = 4546487"
    by code_simp
  moreover have "integer_part (rounded_exactAmountOut 100000 1000000 5000000 2500) = 453512"
    by code_simp
  moreover have "integer_part (swap_minAmountOut 100 100000 1000000 5000000 2500) = 448977"
    by code_simp
  moreover have "integer_part (calc_minAmountOut 100 100000 1000000 5000000 2500) = 448977"
    by code_simp
  ultimately show ?thesis by (intro conjI)
qed

theorem concrete_scenario_values_witness:
  "fst (projr (CalcMinAmountOutBySwap 100 100000 1000000 5000000 2500)) = 448977
   \<and> fst (snd (projr (CalculateMinAmountOut 100 100000 True 5000000 1000000 2500))) = 453512"
  using concrete_scenario_values by simp

text \<open>
  C2, as the specification states it: the values 453,740 and 449,202 that it gives for
  exactAmountOut and minAmountOut are not what the functions return, and 4,546,260 is not
  the integer part of the new output reserve.
\<close>

theorem concrete_scenario_counterexample:
  "CalcMinAmountOutBySwap 100 100000 1000000 5000000 2500 \<noteq> Inr (449202, 453740, None)
   \<and> CalculateMinAmountOut 100 100000 True 5000000 1000000 2500 \<noteq> Inr (449202, 453740, None)
   \<and> integer_part (spec_newOutputReserve 100000 1000000 5000000 2500) \<noteq> 4546260
   \<and> integer_part (spec_exactAmountOut 100000 1000000 5000000 2500) \<noteq> 453740
   \<and> integer_part (spec_minAmountOut 100 100000 1000000 5000000 2500) \<noteq> 449202"
proof -
  have "CalcMinAmountOutBySwap 100 100000 1000000 5000000 2500 = Inr (448977, 453512, None)"
    by code_simp
  moreover have
    "CalculateMinAmountOut 100 100000 True 5000000 1000000 2500 = Inr (448977, 453512, None)"
    by code_simp
  moreover have "integer_part (spec_newOutputReserve 100000 1000000 5000000 2500) = 4546487"
    by code_simp
  moreover have "integer_part (spec_exactAmountOut 100000 1000000 5000000 2500) = 453512"
    by code_simp
  moreover have "integer_part (spec_minAmountOut 100 100000 1000000 5000000 2500) = 448977"
    by code_simp
  ultimately show ?thesis by simp
qed

lemma round16_nonpos_small:
  assumes "round16 y \<le> 0" "0 < y"
  shows "y * 10 ^ 16 < 1 / 2"
proof -
  have "of_int (round_half_away (y * 10 ^ 16)) / 10 ^ 16 \<le> (0::rat)"
    using assms(1) by (simp add: round16_def)
  then have "round_half_away (y * 10 ^ 16) \<le> 0"
    by (simp add: divide_le_0_iff)
  moreover have "round_half_away (y * 10 ^ 16) = \<lfloor>y * 10 ^ 16 + 1 / 2\<rfloor>"
    using assms(2) by (simp add: round_half_away_def not_less [symmetric] less_asym)
  ultimately have "\<lfloor>y * 10 ^ 16 + 1 / 2\<rfloor> < 1" by simp
  then have "y * 10 ^ 16 + 1 / 2 < 1" by (simp only: floor_less_iff of_int_1)
  then show ?thesis by simp
qed

lemma tiny_amounts_truncate_to_zero:
  assumes e: "0 < rounded_exactAmountOut a i out f"
    and m: "0 < swap_minAmountOut s a i out f"
    and c: "calc_minAmountOut s a i out f \<le> 0"
  shows "integer_part (swap_minAmountOut s a i out f) = 0"
    and "integer_part (rounded_exactAmountOut a i out f) = 0"
proof -
  let ?E = "rounded_exactAmountOut a i out f"
  let ?y = "swap_minAmountOut s a i out f"
  have small: "?y * 10 ^ 16 < 1 / 2"
    using c m unfolding calc_minAmountOut_eq by (rule round16_nonpos_small)
  have y: "?y = ?E * ((10000 - of_int (uint s)) / 10000)"
    by (simp add: swap_minAmountOut_def)
  have "0 < (10000 - of_int (uint s)) / (10000 :: rat)"
    using e m unfolding y by (simp add: zero_less_mult_iff)
  then have "(0::rat) < of_int (10000 - uint s)" by simp
  then have "0 < 10000 - uint s" by (simp only: of_int_0_less_iff)
  then have "1 \<le> 10000 - uint s" by simp
  then have "(of_int 1 :: rat) \<le> of_int (10000 - uint s)" by (simp only: of_int_le_iff)
  then have "(1 :: rat) / 10000 \<le> (10000 - of_int (uint s)) / 10000" by simp
  then have "?E * (1 / 10000) \<le> ?y"
    unfolding y using e by (intro mult_left_mono) simp_all
  then have E1: "?E < 1" using small by simp
  have y1: "?y < 1" using small by simp
  show "integer_part ?y = 0"
    using m y1 by (simp add: integer_part_def not_less [symmetric] less_asym floor_eq_iff)
  show "integer_part ?E = 0"
    using e E1 by (simp add: integer_part_def not_less [symmetric] less_asym floor_eq_iff)
qed

text \<open>
  C3.  When the division is defined and a computed amount is not positive (the exact
  amount out, or the minimum amount out as either function computes it), both functions
  return the amounts (0, 0) and they disagree on the error: \<^verbatim>\<open>CalcMinAmountOutBySwap\<close>
  returns a nil error and \<^verbatim>\<open>CalculateMinAmountOut\<close> the error "calculated amount out is
  zero or negative".  No other amounts are returned in this case.
\<close>

theorem nonpositive_amounts_give_zero_result:
  assumes "spec_newInputReserve a i f \<noteq> 0"
    and "rounded_exactAmountOut a i out f \<le> 0
         \<or> swap_minAmountOut s a i out f \<le> 0
         \<or> calc_minAmountOut s a i out f \<le> 0"
  shows "CalcMinAmountOutBySwap s a i out f = Inr (0, 0, None)
    \<and> CalculateMinAmountOut s a True out i f =
        Inr (0, 0, Some ''calculated amount out is zero or negative'')
    \<and> CalculateMinAmountOut s a False i out f =
        Inr (0, 0, Some ''calculated amount out is zero or negative'')"
proof -
  have c: "calc_minAmountOut s a i out f \<le> 0 \<or> rounded_exactAmountOut a i out f \<le> 0"
    using assms(2) round16_nonpos [of "swap_minAmountOut s a i out f"]
    by (auto simp: calc_minAmountOut_eq)
  have swap: "CalcMinAmountOutBySwap s a i out f = Inr (0, 0, None)"
  proof (cases "swap_minAmountOut s a i out f \<le> 0 \<or> rounded_exactAmountOut a i out f \<le> 0")
    case True
    then show ?thesis using assms(1) by (simp add: CalcMinAmountOutBySwap_eq)
  next
    case False
    then have e: "0 < rounded_exactAmountOut a i out f"
      and m: "0 < swap_minAmountOut s a i out f" by simp_all
    with c have "calc_minAmountOut s a i out f \<le> 0" by simp
    from tiny_amounts_truncate_to_zero [OF e m this] False assms(1)
    show ?thesis by (simp add: CalcMinAmountOutBySwap_eq)
  qed
  have "CalculateMinAmountOut s a True out i f =
        Inr (0, 0, Some ''calculated amount out is zero or negative'')"
    using c assms(1) by (simp add: CalculateMinAmountOut_roles [of i True i out out])
  moreover have "CalculateMinAmountOut s a False i out f =
        Inr (0, 0, Some ''calculated amount out is zero or negative'')"
    using c assms(1) by (simp add: CalculateMinAmountOut_roles [of i False out i out])
  ultimately show ?thesis using swap by simp
qed

theorem nonpositive_amounts_give_zero_result_witness:
  "spec_newInputReserve 100000 1000000 2500 \<noteq> 0
   \<and> swap_minAmountOut 10000 100000 1000000 5000000 2500 \<le> 0
   \<and> CalcMinAmountOutBySwap 10000 100000 1000000 5000000 2500 = Inr (0, 0, None)
   \<and> CalculateMinAmountOut 10000 100000 True 5000000 1000000 2500 =
        Inr (0, 0, Some ''calculated amount out is zero or negative'')"
proof -
  have h1: "spec_newInputReserve 100000 1000000 2500 \<noteq> 0" by code_simp
  have h2: "swap_minAmountOut 10000 100000 1000000 5000000 2500 \<le> 0" by code_simp
  show ?thesis
    using nonpositive_amounts_give_zero_result [OF h1, of 5000000 10000] h1 h2 by blast
qed

text \<open>
  C4.  Direction handling is a relabelling of the reserves.  \<^verbatim>\<open>CalcMinAmountOutByAmm\<close>
  gets the token-side reserve and then the SOL-side reserve: for a buy it calls
  \<^verbatim>\<open>CalcMinAmountOutBySwap\<close> with the SOL-side reserve as input reserve and the
  token-side reserve as output reserve, and for a sell with the two swapped.
  \<^verbatim>\<open>CalculateMinAmountOut\<close> assigns the roles the same way: a buy on the reserves
  (token, sol) is the sell on the reserves (sol, token), and both compute the amounts of
  the direction-free formula on input reserve sol and output reserve token.
\<close>

theorem direction_is_relabelling:
  "CalcMinAmountOutByAmm s a True token sol f = CalcMinAmountOutBySwap s a sol token f
   \<and> CalcMinAmountOutByAmm s a False token sol f = CalcMinAmountOutBySwap s a token sol f
   \<and> CalculateMinAmountOut s a True token sol f = CalculateMinAmountOut s a False sol token f
   \<and> CalculateMinAmountOut s a True token sol f =
       (if spec_newInputReserve a sol f = 0 then Inl DivisionByZero
        else if calc_minAmountOut s a sol token f \<le> 0 \<or> rounded_exactAmountOut a sol token f \<le> 0
          then Inr (0, 0, Some ''calculated amount out is zero or negative'')
        else Inr (word_of_int (integer_part (calc_minAmountOut s a sol token f)),
                  word_of_int (integer_part (rounded_exactAmountOut a sol token f)), None))
   \<and> CalculateMinAmountOut s a False token sol f =
       (if spec_newInputReserve a token f = 0 then Inl DivisionByZero
        else if calc_minAmountOut s a token sol f \<le> 0 \<or> rounded_exactAmountOut a token sol f \<le> 0
          then Inr (0, 0, Some ''calculated amount out is zero or negative'')
        else Inr (word_of_int (integer_part (calc_minAmountOut s a token sol f)),
                  word_of_int (integer_part (rounded_exactAmountOut a token sol f)), None))"
proof (intro conjI)
  show "CalcMinAmountOutByAmm s a True token sol f = CalcMinAmountOutBySwap s a sol token f"
    by (simp add: CalcMinAmountOutByAmm_def)
  show "CalcMinAmountOutByAmm s a False token sol f = CalcMinAmountOutBySwap s a token sol f"
    by (simp add: CalcMinAmountOutByAmm_def)
  show "CalculateMinAmountOut s a True token sol f = CalculateMinAmountOut s a False sol token f"
    by (simp add: CalculateMinAmountOut_roles [of sol True sol token token]
        CalculateMinAmountOut_roles [of sol False token sol token])
  show "CalculateMinAmountOut s a True token sol f =
       (if spec_newInputReserve a sol f = 0 then Inl DivisionByZero
        else if calc_minAmountOut s a sol token f \<le> 0 \<or> rounded_exactAmountOut a sol token f \<le> 0
          then Inr (0, 0, Some ''calculated amount out is zero or negative'')
        else Inr (word_of_int (integer_part (calc_minAmountOut s a sol token f)),
                  word_of_int (integer_part (rounded_exactAmountOut a sol token f)), None))"
    by (rule CalculateMinAmountOut_roles) simp_all
  show "CalculateMinAmountOut s a False token sol f =
       (if spec_newInputReserve a token f = 0 then Inl DivisionByZero
        else if calc_minAmountOut s a token sol f \<le> 0 \<or> rounded_exactAmountOut a token sol f \<le> 0
          then Inr (0, 0, Some ''calculated amount out is zero or negative'')
        else Inr (word_of_int (integer_part (calc_minAmountOut s a token sol f)),
                  word_of_int (integer_part (rounded_exactAmountOut a token sol f)), None))"
    by (rule CalculateMinAmountOut_roles) simp_all
qed

theorem direction_is_relabelling_witness:
  "CalcMinAmountOutByAmm 100 100000 True 5000000 1000000 2500
     = CalcMinAmountOutBySwap 100 100000 1000000 5000000 2500
   \<and> CalcMinAmountOutByAmm 100 100000 False 5000000 1000000 2500
     = CalcMinAmountOutBySwap 100 100000 5000000 1000000 2500
   \<and> CalculateMinAmountOut 100 100000 True 5000000 1000000 2500
     = CalculateMinAmountOut 100 100000 False 1000000 5000000 2500"
  using direction_is_relabelling [of 100 100000 5000000 1000000 2500] by blast

lemma swap_returns:
  assumes "spec_newInputReserve a i f \<noteq> 0"
  shows "\<exists>m e. CalcMinAmountOutBySwap s a i out f = Inr (m, e, None)"
  using assms by (simp add: CalcMinAmountOutBySwap_eq)

lemma calc_returns:
  assumes "spec_newInputReserve a i f \<noteq> 0"
    and "i = (if buy then b else t)" "out = (if buy then t else b)"
  shows "\<exists>m e r. CalculateMinAmountOut s a buy t b f = Inr (m, e, r)"
  using assms(1) by (simp add: CalculateMinAmountOut_roles [OF assms(2,3)])

lemma swap_min_antitone_returned:
  assumes pos: "0 < spec_newInputReserve a i f" and le: "s1 \<le> s2"
  shows "\<exists>m1 e1 m2 e2. CalcMinAmountOutBySwap s1 a i out f = Inr (m1, e1, None)
            \<and> CalcMinAmountOutBySwap s2 a i out f = Inr (m2, e2, None) \<and> m2 \<le> m1"
proof (cases "swap_minAmountOut s2 a i out f \<le> 0 \<or> rounded_exactAmountOut a i out f \<le> 0")
  case True
  then have "CalcMinAmountOutBySwap s2 a i out f = Inr (0, 0, None)"
    using pos by (simp add: CalcMinAmountOutBySwap_eq)
  moreover obtain m1 e1 where "CalcMinAmountOutBySwap s1 a i out f = Inr (m1, e1, None)"
    using swap_returns [of a i f s1 out] pos by auto
  ultimately show ?thesis by simp
next
  case False
  then have m2: "0 < swap_minAmountOut s2 a i out f"
    and e: "0 < rounded_exactAmountOut a i out f" by simp_all
  have r2: "CalcMinAmountOutBySwap s2 a i out f =
        Inr (word_of_int (integer_part (swap_minAmountOut s2 a i out f)),
             word_of_int (integer_part (rounded_exactAmountOut a i out f)), None)"
    using pos m2 e by (simp add: CalcMinAmountOutBySwap_eq not_le)
  have mono: "swap_minAmountOut s2 a i out f \<le> swap_minAmountOut s1 a i out f"
    using e le by (intro swap_minAmountOut_antitone) simp_all
  then have m1: "0 < swap_minAmountOut s1 a i out f" using m2 by simp
  then have r1: "CalcMinAmountOutBySwap s1 a i out f =
        Inr (word_of_int (integer_part (swap_minAmountOut s1 a i out f)),
             word_of_int (integer_part (rounded_exactAmountOut a i out f)), None)"
    using pos e by (simp add: CalcMinAmountOutBySwap_eq not_le)
  have "swap_minAmountOut s1 a i out f \<le> of_int (uint out)"
    using swap_minAmountOut_le [OF e, of s1] rounded_exactAmountOut_le [OF pos, of out]
    by simp
  then have "integer_part (swap_minAmountOut s1 a i out f) < 2 ^ 64"
    by (rule integer_part_less_2p64)
  then have "(word_of_int (integer_part (swap_minAmountOut s2 a i out f)) :: u64)
      \<le> word_of_int (integer_part (swap_minAmountOut s1 a i out f))"
    using m2 mono
    by (intro word_of_int_u64_le integer_part_pos_nonneg integer_part_mono)
  then show ?thesis using r1 r2 by simp
qed

lemma calc_min_antitone_returned:
  assumes pos: "0 < spec_newInputReserve a i f" and le: "s1 \<le> s2"
    and roles: "i = (if buy then b else t)" "out = (if buy then t else b)"
  shows "\<exists>m1 e1 r1 m2 e2 r2. CalculateMinAmountOut s1 a buy t b f = Inr (m1, e1, r1)
            \<and> CalculateMinAmountOut s2 a buy t b f = Inr (m2, e2, r2) \<and> m2 \<le> m1"
proof (cases "calc_minAmountOut s2 a i out f \<le> 0 \<or> rounded_exactAmountOut a i out f \<le> 0")
  case True
  then have "CalculateMinAmountOut s2 a buy t b f =
      Inr (0, 0, Some ''calculated amount out is zero or negative'')"
    using pos by (simp add: CalculateMinAmountOut_roles [OF roles])
  moreover obtain m1 e1 r1 where "CalculateMinAmountOut s1 a buy t b f = Inr (m1, e1, r1)"
    using calc_returns [OF _ roles, of a f s1] pos by auto
  ultimately show ?thesis by simp
next
  case False
  then have m2: "0 < calc_minAmountOut s2 a i out f"
    and e: "0 < rounded_exactAmountOut a i out f" by simp_all
  have r2: "CalculateMinAmountOut s2 a buy t b f =
        Inr (word_of_int (integer_part (calc_minAmountOut s2 a i out f)),
             word_of_int (integer_part (rounded_exactAmountOut a i out f)), None)"
    using pos m2 e by (simp add: CalculateMinAmountOut_roles [OF roles] not_le)
  have mono: "calc_minAmountOut s2 a i out f \<le> calc_minAmountOut s1 a i out f"
    using e le by (intro calc_minAmountOut_antitone) simp_all
  then have m1: "0 < calc_minAmountOut s1 a i out f" using m2 by simp
  then have r1: "CalculateMinAmountOut s1 a buy t b f =
        Inr (word_of_int (integer_part (calc_minAmountOut s1 a i out f)),
             word_of_int (integer_part (rounded_exactAmountOut a i out f)), None)"
    using pos e by (simp add: CalculateMinAmountOut_roles [OF roles] not_le)
  have "calc_minAmountOut s1 a i out f \<le> of_int (uint out)"
    using calc_minAmountOut_le [OF e, of s1] rounded_exactAmountOut_le [OF pos, of out]
    by simp
  then have "integer_part (calc_minAmountOut s1 a i out f) < 2 ^ 64"
    by (rule integer_part_less_2p64)
  then have "(word_of_int (integer_part (calc_minAmountOut s2 a i out f)) :: u64)
      \<le> word_of_int (integer_part (calc_minAmountOut s1 a i out f))"
    using m2 mono
    by (intro word_of_int_u64_le integer_part_pos_nonneg integer_part_mono)
  then show ?thesis using r1 r2 by simp
qed

lemma swap_zero_slippage_returned:
  assumes "spec_newInputReserve a i f \<noteq> 0"
  shows "\<exists>m. CalcMinAmountOutBySwap 0 a i out f = Inr (m, m, None)"
  using assms by (simp add: CalcMinAmountOutBySwap_eq swap_minAmountOut_zero_slippage)

lemma calc_zero_slippage_returned:
  assumes "spec_newInputReserve a i f \<noteq> 0"
    and roles: "i = (if buy then b else t)" "out = (if buy then t else b)"
  shows "\<exists>m r. CalculateMinAmountOut 0 a buy t b f = Inr (m, m, r)"
  using assms(1)
  by (simp add: CalculateMinAmountOut_roles [OF roles] calc_minAmountOut_zero_slippage)

text \<open>
  C5 (as amended).  Fix the reserves, the amount in and the fee rate so that
  \<open>inputReserve + amountInNet\<close> is positive, as it is for every fee rate up to 1,000,000
  once it is not zero (lemma \<open>spec_newInputReserve_pos\<close>).  Then both functions return,
  and the returned minAmountOut does not increase when slippageBasisPoints increases; at
  slippageBasisPoints = 0 the returned minAmountOut equals the returned exactAmountOut.
\<close>

theorem min_amount_out_antitone_in_slippage:
  assumes "0 < spec_newInputReserve a i f" and "s1 \<le> s2"
  shows
   "(\<exists>m1 e1 m2 e2. CalcMinAmountOutBySwap s1 a i out f = Inr (m1, e1, None)
        \<and> CalcMinAmountOutBySwap s2 a i out f = Inr (m2, e2, None) \<and> m2 \<le> m1)
    \<and> (\<exists>m1 e1 r1 m2 e2 r2. CalculateMinAmountOut s1 a True out i f = Inr (m1, e1, r1)
        \<and> CalculateMinAmountOut s2 a True out i f = Inr (m2, e2, r2) \<and> m2 \<le> m1)
    \<and> (\<exists>m1 e1 r1 m2 e2 r2. CalculateMinAmountOut s1 a False i out f = Inr (m1, e1, r1)
        \<and> CalculateMinAmountOut s2 a False i out f = Inr (m2, e2, r2) \<and> m2 \<le> m1)
    \<and> (\<exists>m. CalcMinAmountOutBySwap 0 a i out f = Inr (m, m, None))
    \<and> (\<exists>m r. CalculateMinAmountOut 0 a True out i f = Inr (m, m, r))
    \<and> (\<exists>m r. CalculateMinAmountOut 0 a False i out f = Inr (m, m, r))"
proof -
  have nz: "spec_newInputReserve a i f \<noteq> 0" using assms(1) by simp
  show ?thesis
    using swap_min_antitone_returned [OF assms, of out]
      calc_min_antitone_returned [OF assms, of True i out out]
      calc_min_antitone_returned [OF assms, of False out i out]
      swap_zero_slippage_returned [OF nz, of out]
      calc_zero_slippage_returned [OF nz, of True i out out]
      calc_zero_slippage_returned [OF nz, of False out i out]
    by simp
qed

theorem min_amount_out_antitone_in_slippage_witness:
  "0 < spec_newInputReserve 100000 1000000 2500 \<and> (100 :: u32) \<le> 200
   \<and> (\<exists>m1 e1 m2 e2. CalcMinAmountOutBySwap 100 100000 1000000 5000000 2500 = Inr (m1, e1, None)
        \<and> CalcMinAmountOutBySwap 200 100000 1000000 5000000 2500 = Inr (m2, e2, None)
        \<and> m2 \<le> m1)
   \<and> (\<exists>m. CalcMinAmountOutBySwap 0 100000 1000000 5000000 2500 = Inr (m, m, None))"
proof -
  have h1: "0 < spec_newInputReserve 100000 1000000 2500" by code_simp
  have h2: "(100 :: u32) \<le> 200" by simp
  show ?thesis
    using min_amount_out_antitone_in_slippage [OF h1 h2, of 5000000] h1 h2 by blast
qed

text \<open>
  C5, as the specification states it, for every fee rate: with fee rate 2,000,000 the net
  amount in is negative.  For amount in 2, input reserve 1 and output reserve 2^63 the
  divisor is -1 and the exact amount out is 2^64, which is returned modulo 2^64 as 0, so
  that minAmountOut is 0 at slippage 0 and 18,444,899,399,302,180,660 at slippage 1.
\<close>

theorem min_amount_out_antitone_counterexample:
  "CalcMinAmountOutBySwap 0 2 1 9223372036854775808 2000000 = Inr (0, 0, None)
   \<and> CalcMinAmountOutBySwap 1 2 1 9223372036854775808 2000000
       = Inr (18444899399302180660, 0, None)
   \<and> CalculateMinAmountOut 0 2 False 1 9223372036854775808 2000000 = Inr (0, 0, None)
   \<and> CalculateMinAmountOut 1 2 False 1 9223372036854775808 2000000
       = Inr (18444899399302180660, 0, None)
   \<and> (0 :: u32) \<le> 1 \<and> \<not> (18444899399302180660 :: u64) \<le> 0"
proof -
  have "CalcMinAmountOutBySwap 0 2 1 9223372036854775808 2000000 = Inr (0, 0, None)"
    by code_simp
  moreover have "CalcMinAmountOutBySwap 1 2 1 9223372036854775808 2000000
       = Inr (18444899399302180660, 0, None)"
    by code_simp
  moreover have "CalculateMinAmountOut 0 2 False 1 9223372036854775808 2000000 = Inr (0, 0, None)"
    by code_simp
  moreover have "CalculateMinAmountOut 1 2 False 1 9223372036854775808 2000000
       = Inr (18444899399302180660, 0, None)"
    by code_simp
  ultimately show ?thesis by simp
qed

lemma spec_newInputReserve_no_fee:
  "spec_newInputReserve a i 0 = of_int (uint i + uint a)"
  by (simp add: spec_newInputReserve_def spec_amountInNet_def spec_fee_def)

lemma no_fee_within_one_unit:
  assumes D: "0 < uint i + uint a"
    and e: "0 < rounded_exactAmountOut a i out 0"
  shows "uint (word_of_int (integer_part (rounded_exactAmountOut a i out 0)) :: u64)
           = integer_part (rounded_exactAmountOut a i out 0)"
    and "(uint i + uint a) * (uint out - integer_part (rounded_exactAmountOut a i out 0) - 1)
           < uint i * uint out"
    and "uint i * uint out
           < (uint i + uint a) * (uint out - integer_part (rounded_exactAmountOut a i out 0) + 1)"
proof -
  let ?E = "rounded_exactAmountOut a i out 0"
  define x :: rat where "x = of_int (uint i * uint out) / of_int (uint i + uint a)"
  define n where "n = uint out - \<lfloor>?E\<rfloor>"
  have pos: "0 < spec_newInputReserve a i 0"
    unfolding spec_newInputReserve_no_fee using D by (simp only: of_int_0_less_iff)
  have Dq: "(0::rat) < of_int (uint i + uint a)"
    using D by (simp only: of_int_0_less_iff)
  have ip: "integer_part ?E = \<lfloor>?E\<rfloor>"
    using e by (simp add: integer_part_nonneg)
  have E: "?E = of_int (uint out) - round16 x"
    by (simp add: rounded_exactAmountOut_def rounded_newOutputReserve_def spec_k_def
        spec_newInputReserve_no_fee x_def)
  have le: "?E \<le> of_int (uint out)"
    using pos by (rule rounded_exactAmountOut_le)
  show "uint (word_of_int (integer_part ?E) :: u64) = integer_part ?E"
    using e le by (intro uint_word_of_int_u64 integer_part_pos_nonneg integer_part_less_2p64)
  have fl: "of_int \<lfloor>?E\<rfloor> \<le> ?E" "?E < of_int \<lfloor>?E\<rfloor> + 1"
    by linarith+
  have n: "(of_int n :: rat) = of_int (uint out) - of_int \<lfloor>?E\<rfloor>"
    by (simp add: n_def)
  have q_le: "round16 x \<le> of_int n"
    using fl(1) unfolding n E by linarith
  have q_gt: "of_int (n - 1) < round16 x"
    using fl(2) unfolding of_int_diff n E by simp
  have lower: "of_int (n - 1) < x"
  proof (rule ccontr)
    assume "\<not> of_int (n - 1) < x"
    then have "x \<le> of_int (n - 1)" by simp
    then have "round16 x \<le> round16 (of_int (n - 1))" by (rule round16_mono)
    then show False using q_gt by (simp only: round16_of_int)
  qed
  have upper: "x < of_int (n + 1)"
  proof (rule ccontr)
    assume "\<not> x < of_int (n + 1)"
    then have "of_int (n + 1) \<le> x" by simp
    then have "round16 (of_int (n + 1)) \<le> round16 x" by (rule round16_mono)
    then have "(of_int (n + 1) :: rat) \<le> of_int n"
      using q_le by (simp only: round16_of_int)
    then show False by simp
  qed
  have "(of_int (n - 1) :: rat) * of_int (uint i + uint a) < of_int (uint i * uint out)"
    using lower Dq unfolding x_def by (simp only: pos_less_divide_eq)
  then have "(n - 1) * (uint i + uint a) < uint i * uint out"
    by (simp only: of_int_mult [symmetric] of_int_less_iff)
  then show "(uint i + uint a) * (uint out - integer_part ?E - 1) < uint i * uint out"
    by (simp add: ip n_def mult.commute)
  have "(of_int (uint i * uint out) :: rat) < of_int (n + 1) * of_int (uint i + uint a)"
    using upper Dq unfolding x_def by (simp only: pos_divide_less_eq)
  then have "uint i * uint out < (n + 1) * (uint i + uint a)"
    by (simp only: of_int_mult [symmetric] of_int_less_iff)
  then show "uint i * uint out < (uint i + uint a) * (uint out - integer_part ?E + 1)"
    by (simp add: ip n_def mult.commute)
qed

text \<open>
  C6 (as amended).  Invariant-product conservation without fee.  Let the fee rate be 0, the
  divisor \<open>inputReserve + amountIn\<close> positive and the computed amounts positive.  Then
  the functions return an exactAmountOut for which
  \<open>inputReserve * outputReserve = (inputReserve + amountIn) * (outputReserve - exactAmountOut)\<close>
  holds within the rounding tolerance of one unit of exactAmountOut: the product
  \<open>inputReserve * outputReserve\<close> lies strictly between
  \<open>(inputReserve + amountIn) * (outputReserve - exactAmountOut - 1)\<close> and
  \<open>(inputReserve + amountIn) * (outputReserve - exactAmountOut + 1)\<close>.  The tolerance is
  one unit of the amount, which the integer part rounds; the two products themselves
  differ by less than \<open>inputReserve + amountIn\<close>.
\<close>

theorem invariant_product_within_one_unit:
  assumes "0 < uint i + uint a"
    and "0 < rounded_exactAmountOut a i out 0"
  shows
   "(0 < swap_minAmountOut s a i out 0 \<longrightarrow>
      (\<exists>m e. CalcMinAmountOutBySwap s a i out 0 = Inr (m, e, None)
         \<and> (uint i + uint a) * (uint out - uint e - 1) < uint i * uint out
         \<and> uint i * uint out < (uint i + uint a) * (uint out - uint e + 1)))
    \<and> (0 < calc_minAmountOut s a i out 0 \<longrightarrow>
      (\<exists>m e. CalculateMinAmountOut s a True out i 0 = Inr (m, e, None)
         \<and> (uint i + uint a) * (uint out - uint e - 1) < uint i * uint out
         \<and> uint i * uint out < (uint i + uint a) * (uint out - uint e + 1))
      \<and> (\<exists>m e. CalculateMinAmountOut s a False i out 0 = Inr (m, e, None)
         \<and> (uint i + uint a) * (uint out - uint e - 1) < uint i * uint out
         \<and> uint i * uint out < (uint i + uint a) * (uint out - uint e + 1)))"
proof -
  have nz: "spec_newInputReserve a i 0 \<noteq> 0"
    unfolding spec_newInputReserve_no_fee using assms(1) by (simp only: of_int_eq_0_iff)
  note u = no_fee_within_one_unit [OF assms]
  show ?thesis
  proof (intro conjI impI)
    assume "0 < swap_minAmountOut s a i out 0"
    then have "CalcMinAmountOutBySwap s a i out 0 =
         Inr (word_of_int (integer_part (swap_minAmountOut s a i out 0)),
              word_of_int (integer_part (rounded_exactAmountOut a i out 0)), None)"
      using nz assms(2) by (simp add: CalcMinAmountOutBySwap_eq not_le)
    then show "\<exists>m e. CalcMinAmountOutBySwap s a i out 0 = Inr (m, e, None)
         \<and> (uint i + uint a) * (uint out - uint e - 1) < uint i * uint out
         \<and> uint i * uint out < (uint i + uint a) * (uint out - uint e + 1)"
      using u by simp
  next
    assume "0 < calc_minAmountOut s a i out 0"
    then have "CalculateMinAmountOut s a True out i 0 =
         Inr (word_of_int (integer_part (calc_minAmountOut s a i out 0)),
              word_of_int (integer_part (rounded_exactAmountOut a i out 0)), None)"
      using nz assms(2) by (simp add: CalculateMinAmountOut_roles [of i True i out out] not_le)
    then show "\<exists>m e. CalculateMinAmountOut s a True out i 0 = Inr (m, e, None)
         \<and> (uint i + uint a) * (uint out - uint e - 1) < uint i * uint out
         \<and> uint i * uint out < (uint i + uint a) * (uint out - uint e + 1)"
      using u by simp
  next
    assume "0 < calc_minAmountOut s a i out 0"
    then have "CalculateMinAmountOut s a False i out 0 =
         Inr (word_of_int (integer_part (calc_minAmountOut s a i out 0)),
              word_of_int (integer_part (rounded_exactAmountOut a i out 0)), None)"
      using nz assms(2) by (simp add: CalculateMinAmountOut_roles [of i False out i out] not_le)
    then show "\<exists>m e. CalculateMinAmountOut s a False i out 0 = Inr (m, e, None)
         \<and> (uint i + uint a) * (uint out - uint e - 1) < uint i * uint out
         \<and> uint i * uint out < (uint i + uint a) * (uint out - uint e + 1)"
      using u by simp
  qed
qed

theorem invariant_product_within_one_unit_witness:
  "0 < uint (1000000 :: u64) + uint (100000 :: u64)
   \<and> 0 < rounded_exactAmountOut 100000 1000000 5000000 0
   \<and> 0 < swap_minAmountOut 100 100000 1000000 5000000 0
   \<and> (\<exists>m e. CalcMinAmountOutBySwap 100 100000 1000000 5000000 0 = Inr (m, e, None)
         \<and> (uint (1000000 :: u64) + uint (100000 :: u64)) * (uint (5000000 :: u64) - uint e - 1)
              < uint (1000000 :: u64) * uint (5000000 :: u64)
         \<and> uint (1000000 :: u64) * uint (5000000 :: u64)
              < (uint (1000000 :: u64) + uint (100000 :: u64)) * (uint (5000000 :: u64) - uint e + 1))"
proof -
  have h1: "0 < uint (1000000 :: u64) + uint (100000 :: u64)" by simp
  have h2: "0 < rounded_exactAmountOut 100000 1000000 5000000 0" by code_simp
  have h3: "0 < swap_minAmountOut 100 100000 1000000 5000000 0" by code_simp
  show ?thesis
    using invariant_product_within_one_unit [OF h1 h2, of 100] h1 h2 h3 by blast
qed

text \<open>
  C6, with the tolerance of 1 unit read as a tolerance on the two products: with fee rate 0,
  amount in 100,000, input reserve 1,000,000 and output reserve 5,000,000 the functions
  return exactAmountOut = 454,545, and \<open>(inputReserve + amountIn) * (outputReserve -
  exactAmountOut)\<close> exceeds \<open>inputReserve * outputReserve\<close> by 500,000.
\<close>

theorem invariant_product_counterexample:
  "CalcMinAmountOutBySwap 100 100000 1000000 5000000 0 = Inr (449999, 454545, None)
   \<and> CalculateMinAmountOut 100 100000 True 5000000 1000000 0 = Inr (450000, 454545, None)
   \<and> (uint (1000000 :: u64) + uint (100000 :: u64)) * (uint (5000000 :: u64) - uint (454545 :: u64))
        - uint (1000000 :: u64) * uint (5000000 :: u64) = 500000"
proof -
  have "CalcMinAmountOutBySwap 100 100000 1000000 5000000 0 = Inr (449999, 454545, None)"
    by code_simp
  moreover have
    "CalculateMinAmountOut 100 100000 True 5000000 1000000 0 = Inr (450000, 454545, None)"
    by code_simp
  ultimately show ?thesis by simp
qed

text \<open>
  C10.  The quote functions are not total on non-negative reserves and amounts: with input
  reserve 0 and amount in 0 the divisor \<open>inputReserve + amountInNet\<close> is 0, no test
  guards the division, and \<^verbatim>\<open>Div\<close> panics with "decimal division by 0", whatever the
  slippage, the output reserve and the fee rate are.
\<close>

theorem division_by_zero_reachable:
  "CalcMinAmountOutBySwap s 0 0 outputReserve f = Inl DivisionByZero
   \<and> CalcMinAmountOutByAmm s 0 True outputReserve 0 f = Inl DivisionByZero
   \<and> CalcMinAmountOutByAmm s 0 False 0 outputReserve f = Inl DivisionByZero
   \<and> CalculateMinAmountOut s 0 True outputReserve 0 f = Inl DivisionByZero
   \<and> CalculateMinAmountOut s 0 False 0 outputReserve f = Inl DivisionByZero"
proof -
  have z: "spec_newInputReserve 0 0 f = 0"
    by (simp add: spec_newInputReserve_def spec_amountInNet_def spec_fee_def)
  have "CalcMinAmountOutBySwap s 0 0 outputReserve f = Inl DivisionByZero"
    by (simp add: CalcMinAmountOutBySwap_eq z)
  moreover have "CalculateMinAmountOut s 0 True outputReserve 0 f = Inl DivisionByZero"
    by (simp add: CalculateMinAmountOut_roles [of 0 True 0 outputReserve outputReserve] z)
  moreover have "CalculateMinAmountOut s 0 False 0 outputReserve f = Inl DivisionByZero"
    by (simp add: CalculateMinAmountOut_roles [of 0 False outputReserve 0 outputReserve] z)
  ultimately show ?thesis by (simp add: CalcMinAmountOutByAmm_def)
qed

theorem division_by_zero_reachable_witness:
  "CalcMinAmountOutBySwap 100 0 0 5000000 2500 = Inl DivisionByZero
   \<and> CalculateMinAmountOut 100 0 True 5000000 0 2500 = Inl DivisionByZero"
  using division_by_zero_reachable [of 100 5000000 2500] by blast

section \<open>The claims about the instruction classifier\<close>

lemma le64_bits:
  fixes x :: u64
  shows "(ucast (ucast x :: byte) :: u64) OR push_bit 8 (ucast (ucast (drop_bit 8 x) :: byte))
     OR push_bit 16 (ucast (ucast (drop_bit 16 x) :: byte))
     OR push_bit 24 (ucast (ucast (drop_bit 24 x) :: byte))
     OR push_bit 32 (ucast (ucast (drop_bit 32 x) :: byte))
     OR push_bit 40 (ucast (ucast (drop_bit 40 x) :: byte))
     OR push_bit 48 (ucast (ucast (drop_bit 48 x) :: byte))
     OR push_bit 56 (ucast (ucast (drop_bit 56 x) :: byte)) = x"
proof (rule bit_word_eqI)
  fix n :: nat
  assume "n < LENGTH(64)"
  then have n: "n < 64" by simp
  consider "n < 8" | "8 \<le> n" "n < 16" | "16 \<le> n" "n < 24" | "24 \<le> n" "n < 32"
    | "32 \<le> n" "n < 40" | "40 \<le> n" "n < 48" | "48 \<le> n" "n < 56" | "56 \<le> n"
    by linarith
  then show "bit (ucast (ucast x :: byte) OR push_bit 8 (ucast (ucast (drop_bit 8 x) :: byte))
     OR push_bit 16 (ucast (ucast (drop_bit 16 x) :: byte))
     OR push_bit 24 (ucast (ucast (drop_bit 24 x) :: byte))
     OR push_bit 32 (ucast (ucast (drop_bit 32 x) :: byte))
     OR push_bit 40 (ucast (ucast (drop_bit 40 x) :: byte))
     OR push_bit 48 (ucast (ucast (drop_bit 48 x) :: byte))
     OR push_bit 56 (ucast (ucast (drop_bit 56 x) :: byte)) :: u64) n = bit x n"
    using n by cases (auto simp: bit_simps)
qed

lemma Uint64_encodeU64: "Uint64 (encodeU64 x @ rest) = Inr x"
  by (simp add: encodeU64_def le64_bits)

lemma length_encodeU64: "length (encodeU64 x) = 8"
  by (simp add: encodeU64_def)

lemma length_discriminators:
  "length BuyDiscriminator = 8" "length SellDiscriminator = 8"
  "length CreatePoolDiscriminator = 8"
  by (simp_all add: BuyDiscriminator_def SellDiscriminator_def CreatePoolDiscriminator_def)

lemma discriminators_distinct:
  "BuyDiscriminator \<noteq> SellDiscriminator" "BuyDiscriminator \<noteq> CreatePoolDiscriminator"
  "SellDiscriminator \<noteq> CreatePoolDiscriminator"
  by (simp_all add: BuyDiscriminator_def SellDiscriminator_def CreatePoolDiscriminator_def)

lemma Uint64_total: "8 \<le> length b \<Longrightarrow> \<exists>v. Uint64 b = Inr v"
  by (cases b rule: Uint64.cases) auto

lemma payload_slices:
  assumes "length d = 8"
  shows "take 8 (d @ encodeU64 x @ encodeU64 y @ rest) = d"
    and "take 8 (drop 8 (d @ encodeU64 x @ encodeU64 y @ rest)) = encodeU64 x"
    and "take 8 (drop 16 (d @ encodeU64 x @ encodeU64 y @ rest)) = encodeU64 y"
    and "length (d @ encodeU64 x @ encodeU64 y @ rest) = 24 + length rest"
  using assms by (simp_all add: length_encodeU64)

lemma Uint64_of_encodeU64: "Uint64 (encodeU64 x) = Inr x"
  using Uint64_encodeU64 [of x "[]"] by simp

text \<open>
  C7.  Classifier round trip.  For all 64-bit values x and y, the data made of the Buy
  discriminator 102, 6, 61, 18, 1, 218, 235, 234, the little-endian bytes of x and the
  little-endian bytes of y (and any further bytes) is classified as a Buy: the instruction
  type is "Buy", the direction is set, baseAmountOut = x is read from the bytes [8, 16)
  into \<^verbatim>\<open>summary.AmountOut\<close> and maxQuoteAmountIn = y from the bytes [16, 24) into
  \<^verbatim>\<open>summary.AmountIn\<close>.  With the Sell discriminator the type is "Sell",
  baseAmountIn = x is read from the same bytes [8, 16) into \<^verbatim>\<open>summary.AmountIn\<close> and
  minQuoteAmountOut = y from [16, 24) into \<^verbatim>\<open>summary.AmountOut\<close>.
\<close>

theorem classifier_round_trip:
  "classifyInstData (BuyDiscriminator @ encodeU64 x @ encodeU64 y @ rest) st =
     Inr (st\<lparr>isSwapInstruction := True, isBuy := True,
             summary := (summary st)\<lparr>Operation := ''Swap'',
               Direction := ''Buy (SOL '' @ arrow @ '' Token)'',
               AmountOut := x, AmountIn := y\<rparr>,
             stdout := stdout st @
               [LengthOfInstDataBytes (24 + length rest),
                InstructionDiscriminator BuyDiscriminator,
                BuyParameters, BaseAmountOut x, MaxQuoteAmountIn y]\<rparr>,
          BuyDiscriminator)
   \<and> instructionType BuyDiscriminator = ''Buy''
   \<and> classifyInstData (SellDiscriminator @ encodeU64 x @ encodeU64 y @ rest) st =
     Inr (st\<lparr>isSwapInstruction := True, isSell := True,
             summary := (summary st)\<lparr>Operation := ''Swap'',
               Direction := ''Sell (Token '' @ arrow @ '' SOL)'',
               AmountIn := x, AmountOut := y\<rparr>,
             stdout := stdout st @
               [LengthOfInstDataBytes (24 + length rest),
                InstructionDiscriminator SellDiscriminator,
                SellParameters, BaseAmountIn x, MinQuoteAmountOut y]\<rparr>,
          SellDiscriminator)
   \<and> instructionType SellDiscriminator = ''Sell''"
proof (intro conjI)
  show "classifyInstData (BuyDiscriminator @ encodeU64 x @ encodeU64 y @ rest) st =
     Inr (st\<lparr>isSwapInstruction := True, isBuy := True,
             summary := (summary st)\<lparr>Operation := ''Swap'',
               Direction := ''Buy (SOL '' @ arrow @ '' Token)'',
               AmountOut := x, AmountIn := y\<rparr>,
             stdout := stdout st @
               [LengthOfInstDataBytes (24 + length rest),
                InstructionDiscriminator BuyDiscriminator,
                BuyParameters, BaseAmountOut x, MaxQuoteAmountIn y]\<rparr>,
          BuyDiscriminator)"
    unfolding classifyInstData_def payload_slices [OF length_discriminators(1)] Uint64_of_encodeU64
    by (simp add: Let_def Printf_def)
  show "classifyInstData (SellDiscriminator @ encodeU64 x @ encodeU64 y @ rest) st =
     Inr (st\<lparr>isSwapInstruction := True, isSell := True,
             summary := (summary st)\<lparr>Operation := ''Swap'',
               Direction := ''Sell (Token '' @ arrow @ '' SOL)'',
               AmountIn := x, AmountOut := y\<rparr>,
             stdout := stdout st @
               [LengthOfInstDataBytes (24 + length rest),
                InstructionDiscriminator SellDiscriminator,
                SellParameters, BaseAmountIn x, MinQuoteAmountOut y]\<rparr>,
          SellDiscriminator)"
    unfolding classifyInstData_def payload_slices [OF length_discriminators(2)] Uint64_of_encodeU64
    using discriminators_distinct by (simp add: Let_def Printf_def)
  show "instructionType BuyDiscriminator = ''Buy''"
    by (simp add: instructionType_def)
  show "instructionType SellDiscriminator = ''Sell''"
    using discriminators_distinct by (simp add: instructionType_def)
qed

theorem classifier_round_trip_witness:
  "classifyInstData (BuyDiscriminator @ encodeU64 5 @ encodeU64 7 @ []) initial_analysis =
     Inr (initial_analysis\<lparr>isSwapInstruction := True, isBuy := True,
             summary := (summary initial_analysis)\<lparr>Operation := ''Swap'',
               Direction := ''Buy (SOL '' @ arrow @ '' Token)'',
               AmountOut := 5, AmountIn := 7\<rparr>,
             stdout := stdout initial_analysis @
               [LengthOfInstDataBytes (24 + length ([] :: byte list)),
                InstructionDiscriminator BuyDiscriminator,
                BuyParameters, BaseAmountOut 5, MaxQuoteAmountIn 7]\<rparr>,
          BuyDiscriminator)"
  using classifier_round_trip [of 5 7 "[]" initial_analysis] by blast

lemma classifyInstData_total: "\<exists>st' d. classifyInstData instDataBytes st = Inr (st', d)"
proof (cases "24 \<le> length instDataBytes")
  case True
  then obtain v w where "Uint64 (take 8 (drop 8 instDataBytes)) = Inr v"
      "Uint64 (take 8 (drop 16 instDataBytes)) = Inr w"
    using Uint64_total [of "take 8 (drop 8 instDataBytes)"]
      Uint64_total [of "take 8 (drop 16 instDataBytes)"] by auto
  then show ?thesis by (simp add: classifyInstData_def Let_def)
next
  case False
  then show ?thesis by (simp add: classifyInstData_def Let_def)
qed

text \<open>
  C8.  Data shorter than 8 bytes is reported as too short: the only effect is the printed
  report, no parameter is extracted, no discriminator is kept and the instruction type is
  "Unknown".  Data of at least 8 bytes whose first 8 bytes are none of the three
  discriminators is reported as unknown, with the 8 bytes kept in
  \<^verbatim>\<open>currentDiscriminator\<close> and printed; again nothing else changes.  Neither outcome is
  an error: the classification of any data returns to the loop, it never panics.
\<close>

theorem too_short_and_unknown:
  "(length d < 8 \<longrightarrow>
      classifyInstData d st =
        Inr (st\<lparr>stdout := stdout st @
               [LengthOfInstDataBytes (length d), DataTooShort (length d)]\<rparr>, [])
      \<and> instructionType [] = ''Unknown'')
   \<and> (8 \<le> length d \<and> take 8 d \<noteq> BuyDiscriminator \<and> take 8 d \<noteq> SellDiscriminator
        \<and> take 8 d \<noteq> CreatePoolDiscriminator \<longrightarrow>
      classifyInstData d st =
        Inr (st\<lparr>stdout := stdout st @
               [LengthOfInstDataBytes (length d), InstructionDiscriminator (take 8 d),
                UnknownInstructionType (take 8 d),
                InstructionData (min 32 (length d)) (take 32 d)]\<rparr>, take 8 d)
      \<and> instructionType (take 8 d) = ''Unknown'')
   \<and> (\<exists>st' c. classifyInstData d st = Inr (st', c))"
proof (intro conjI impI)
  assume "length d < 8"
  then show "classifyInstData d st =
        Inr (st\<lparr>stdout := stdout st @
               [LengthOfInstDataBytes (length d), DataTooShort (length d)]\<rparr>, [])"
    by (simp add: classifyInstData_def Let_def Printf_def)
next
  show "instructionType [] = ''Unknown''"
    by (simp add: instructionType_def BuyDiscriminator_def SellDiscriminator_def
        CreatePoolDiscriminator_def)
next
  assume a: "8 \<le> length d \<and> take 8 d \<noteq> BuyDiscriminator \<and> take 8 d \<noteq> SellDiscriminator
        \<and> take 8 d \<noteq> CreatePoolDiscriminator"
  have "take (if 32 < length d then 32 else length d) d = take 32 d"
    by simp
  moreover have "(if 32 < length d then 32 else length d) = min 32 (length d)"
    by simp
  ultimately show "classifyInstData d st =
        Inr (st\<lparr>stdout := stdout st @
               [LengthOfInstDataBytes (length d), InstructionDiscriminator (take 8 d),
                UnknownInstructionType (take 8 d),
                InstructionData (min 32 (length d)) (take 32 d)]\<rparr>, take 8 d)"
    using a by (simp add: classifyInstData_def Let_def Printf_def)
  show "instructionType (take 8 d) = ''Unknown''"
    using a by (simp add: instructionType_def)
next
  show "\<exists>st' c. classifyInstData d st = Inr (st', c)"
    by (rule classifyInstData_total)
qed

theorem too_short_and_unknown_witness:
  "length [1, 2, 3 :: byte] < 8
   \<and> classifyInstData [1, 2, 3] initial_analysis =
        Inr (initial_analysis\<lparr>stdout := stdout initial_analysis @
               [LengthOfInstDataBytes (length [1, 2, 3 :: byte]),
                DataTooShort (length [1, 2, 3 :: byte])]\<rparr>, [])
   \<and> 8 \<le> length (replicate 9 (0 :: byte))
   \<and> classifyInstData (replicate 9 0) initial_analysis =
        Inr (initial_analysis\<lparr>stdout := stdout initial_analysis @
               [LengthOfInstDataBytes (length (replicate 9 (0 :: byte))),
                InstructionDiscriminator (take 8 (replicate 9 0)),
                UnknownInstructionType (take 8 (replicate 9 0)),
                InstructionData (min 32 (length (replicate 9 (0 :: byte))))
                  (take 32 (replicate 9 0))]\<rparr>, take 8 (replicate 9 0))
   \<and> instructionType (take 8 (replicate 9 0)) = ''Unknown''"
proof -
  have h1: "length [1, 2, 3 :: byte] < 8" by simp
  have h2: "8 \<le> length (replicate 9 (0 :: byte)) \<and> take 8 (replicate 9 0) \<noteq> BuyDiscriminator
      \<and> take 8 (replicate 9 0) \<noteq> SellDiscriminator
      \<and> take 8 (replicate 9 0) \<noteq> CreatePoolDiscriminator"
    by code_simp
  show ?thesis
    using too_short_and_unknown [of "[1, 2, 3]" initial_analysis]
      too_short_and_unknown [of "replicate 9 0" initial_analysis] h1 h2
    by blast
qed

text \<open>
  C9 (as amended).  Data that starts with the Buy or the Sell discriminator and is
  shorter than 24 bytes is classified as that kind and no parameter is extracted: the
  fields \<^verbatim>\<open>AmountIn\<close> and \<^verbatim>\<open>AmountOut\<close> of the summary keep the values they had,
  which is 0 in a fresh summary.  Only the printed parameter lines are missing.
\<close>

theorem short_swap_payload_keeps_amounts:
  "(8 \<le> length d \<and> length d < 24 \<and> take 8 d = BuyDiscriminator \<longrightarrow>
      classifyInstData d st =
        Inr (st\<lparr>isSwapInstruction := True, isBuy := True,
                summary := (summary st)\<lparr>Operation := ''Swap'',
                  Direction := ''Buy (SOL '' @ arrow @ '' Token)''\<rparr>,
                stdout := stdout st @
                  [LengthOfInstDataBytes (length d),
                   InstructionDiscriminator BuyDiscriminator]\<rparr>,
             BuyDiscriminator))
   \<and> (8 \<le> length d \<and> length d < 24 \<and> take 8 d = SellDiscriminator \<longrightarrow>
      classifyInstData d st =
        Inr (st\<lparr>isSwapInstruction := True, isSell := True,
                summary := (summary st)\<lparr>Operation := ''Swap'',
                  Direction := ''Sell (Token '' @ arrow @ '' SOL)''\<rparr>,
                stdout := stdout st @
                  [LengthOfInstDataBytes (length d),
                   InstructionDiscriminator SellDiscriminator]\<rparr>,
             SellDiscriminator))"
  using discriminators_distinct
  by (simp add: classifyInstData_def Let_def Printf_def)

theorem short_swap_payload_keeps_amounts_witness:
  "8 \<le> length BuyDiscriminator \<and> length BuyDiscriminator < 24
   \<and> take 8 BuyDiscriminator = BuyDiscriminator
   \<and> classifyInstData BuyDiscriminator initial_analysis =
        Inr (initial_analysis\<lparr>isSwapInstruction := True, isBuy := True,
                summary := (summary initial_analysis)\<lparr>Operation := ''Swap'',
                  Direction := ''Buy (SOL '' @ arrow @ '' Token)''\<rparr>,
                stdout := stdout initial_analysis @
                  [LengthOfInstDataBytes (length BuyDiscriminator),
                   InstructionDiscriminator BuyDiscriminator]\<rparr>,
             BuyDiscriminator)"
proof -
  have h: "8 \<le> length BuyDiscriminator \<and> length BuyDiscriminator < 24
      \<and> take 8 BuyDiscriminator = BuyDiscriminator"
    by (simp add: BuyDiscriminator_def)
  show ?thesis
    using short_swap_payload_keeps_amounts [of BuyDiscriminator initial_analysis] h by blast
qed

text \<open>
  C9, as the specification states it: the amounts are plain \<^verbatim>\<open>uint64\<close> fields, not
  optional ones.  After the 8 bytes of the Buy discriminator alone, the detection
  variables and the summary are the same as after the Buy discriminator followed by two
  zero amounts: both summaries hold \<open>AmountIn = 0\<close> and \<open>AmountOut = 0\<close>.  The two
  results differ in the printed lines only.
\<close>

theorem short_swap_payload_counterexample:
  "classifyInstData BuyDiscriminator initial_analysis =
     Inr (\<lparr>isSwapInstruction = True, isBuy = True, isSell = False,
           summary = \<lparr>Operation = ''Swap'', Direction = ''Buy (SOL '' @ arrow @ '' Token)'',
                      BaseMint = ''Unknown'', AmountIn = 0, AmountOut = 0,
                      BaseMintName = []\<rparr>,
           stdout = [LengthOfInstDataBytes 8, InstructionDiscriminator BuyDiscriminator]\<rparr>,
          BuyDiscriminator)
   \<and> classifyInstData (BuyDiscriminator @ encodeU64 0 @ encodeU64 0) initial_analysis =
     Inr (\<lparr>isSwapInstruction = True, isBuy = True, isSell = False,
           summary = \<lparr>Operation = ''Swap'', Direction = ''Buy (SOL '' @ arrow @ '' Token)'',
                      BaseMint = ''Unknown'', AmountIn = 0, AmountOut = 0,
                      BaseMintName = []\<rparr>,
           stdout = [LengthOfInstDataBytes 24, InstructionDiscriminator BuyDiscriminator,
                     BuyParameters, BaseAmountOut 0, MaxQuoteAmountIn 0]\<rparr>,
          BuyDiscriminator)"
proof -
  have "classifyInstData BuyDiscriminator initial_analysis =
     Inr (\<lparr>isSwapInstruction = True, isBuy = True, isSell = False,
           summary = \<lparr>Operation = ''Swap'', Direction = ''Buy (SOL '' @ arrow @ '' Token)'',
                      BaseMint = ''Unknown'', AmountIn = 0, AmountOut = 0,
                      BaseMintName = []\<rparr>,
           stdout = [LengthOfInstDataBytes 8, InstructionDiscriminator BuyDiscriminator]\<rparr>,
          BuyDiscriminator)"
    by code_simp
  moreover have "classifyInstData (BuyDiscriminator @ encodeU64 0 @ encodeU64 0) initial_analysis =
     Inr (\<lparr>isSwapInstruction = True, isBuy = True, isSell = False,
           summary = \<lparr>Operation = ''Swap'', Direction = ''Buy (SOL '' @ arrow @ '' Token)'',
                      BaseMint = ''Unknown'', AmountIn = 0, AmountOut = 0,
                      BaseMintName = []\<rparr>,
           stdout = [LengthOfInstDataBytes 24, InstructionDiscriminator BuyDiscriminator,
                     BuyParameters, BaseAmountOut 0, MaxQuoteAmountIn 0]\<rparr>,
          BuyDiscriminator)"
    by code_simp
  ultimately show ?thesis by (intro conjI)
qed

end
